theory Spec2Isabelle
  imports Complex_Main "HOL-Library.AList"
begin

section \<open>Python values\<close>

text \<open>
  The two modules work on JSON-like Python values: documents and line items are
  dictionaries with string keys, their fields hold arbitrary values.

  A Python \<open>str\<close> is modelled as a \<^typ>\<open>string\<close> whose characters are the code points
  0 to 255; text with other code points is outside the model. A Python \<open>float\<close> is an
  IEEE binary64 number: a finite value is kept as the rational it denotes, the negative
  zero, the two infinities and the not-a-number value are constructors of their own.
\<close>

datatype pyfloat = Fin rat | NZero | PInf | NInf | NaN

datatype pyval =
    VNone
  | VBool bool
  | VInt int
  | VFloat pyfloat
  | VStr string
  | VList "pyval list"
  | VTuple "pyval list"
  | VDict "(string \<times> pyval) list"

type_synonym pydict = "(string \<times> pyval) list"

datatype error = AttributeError | TypeError | OverflowError | ZeroDivisionError

text \<open>Sequencing of computations that may raise: the first error is the result.\<close>

definition bind_err :: "error + 'a \<Rightarrow> ('a \<Rightarrow> error + 'b) \<Rightarrow> error + 'b" where
  "bind_err m f = (case m of Inl e \<Rightarrow> Inl e | Inr x \<Rightarrow> f x)"

subsection \<open>Binary64 arithmetic\<close>

text \<open>\<open>n.bit_length()\<close> for a natural number \<open>n\<close>, computed on the integers.\<close>

function bit_length :: "int \<Rightarrow> int" where
  "bit_length n = (if n \<le> 0 then 0 else 1 + bit_length (n div 2))"
  by pat_completeness auto
termination
  by (relation "measure nat") auto

declare bit_length.simps [simp del]

definition pow2 :: "int \<Rightarrow> rat" where
  "pow2 k = (if 0 \<le> k then 2 ^ nat k else 1 / 2 ^ nat (- k))"

definition pow10 :: "int \<Rightarrow> rat" where
  "pow10 k = (if 0 \<le> k then 10 ^ nat k else 1 / 10 ^ nat (- k))"

text \<open>The exponent \<open>e\<close> with \<open>2 ^ e \<le> a < 2 ^ (e + 1)\<close>, for a positive \<open>a\<close>.\<close>

definition floor_log2 :: "rat \<Rightarrow> int" where
  "floor_log2 a =
     (let (n, d) = quotient_of a;
          k = bit_length n - bit_length d
      in if pow2 k \<le> a then k else k - 1)"

definition round_half_even :: "rat \<Rightarrow> int" where
  "round_half_even m =
     (let f = \<lfloor>m\<rfloor>; d = m - of_int f
      in if d < 1 / 2 then f
         else if 1 / 2 < d then f + 1
         else if even f then f else f + 1)"

text \<open>
  Rounding of the magnitude \<open>a \<ge> 0\<close> with sign \<open>neg\<close> to the nearest binary64 number,
  ties to even: 53 significant bits, gradual underflow below \<open>2 ^ -1022\<close>, overflow to
  an infinity from \<open>2 ^ 1024\<close> on.
\<close>

definition round64 :: "bool \<Rightarrow> rat \<Rightarrow> pyfloat" where
  "round64 neg a =
     (let m = (if a = 0 then 0
               else let p = max (floor_log2 a) (- 1022) - 52
                    in of_int (round_half_even (a / pow2 p)) * pow2 p)
      in if m = 0 then (if neg then NZero else Fin 0)
         else if pow2 1024 \<le> m then (if neg then NInf else PInf)
         else Fin (if neg then - m else m))"

text \<open>\<open>float(i)\<close> for an \<open>int\<close>: correctly rounded, \<open>OverflowError\<close> beyond the range.\<close>

definition float_of_int :: "int \<Rightarrow> error + pyfloat" where
  "float_of_int i =
     (let r = round64 (i < 0) \<bar>of_int i\<bar>
      in if r = PInf \<or> r = NInf then Inl OverflowError else Inr r)"

definition is_nan :: "pyfloat \<Rightarrow> bool" where
  "is_nan x = (x = NaN)"

definition is_zero :: "pyfloat \<Rightarrow> bool" where
  "is_zero x = (x = Fin 0 \<or> x = NZero)"

definition sign_bit :: "pyfloat \<Rightarrow> bool" where
  "sign_bit x = (case x of Fin q \<Rightarrow> q < 0 | NZero \<Rightarrow> True | PInf \<Rightarrow> False
                 | NInf \<Rightarrow> True | NaN \<Rightarrow> False)"

text \<open>The value of a finite float; the two zeros have the same value.\<close>

definition fin_val :: "pyfloat \<Rightarrow> rat" where
  "fin_val x = (case x of Fin q \<Rightarrow> q | _ \<Rightarrow> 0)"

definition is_finite :: "pyfloat \<Rightarrow> bool" where
  "is_finite x = (case x of Fin q \<Rightarrow> True | NZero \<Rightarrow> True | _ \<Rightarrow> False)"

text \<open>\<open>x == y\<close>, \<open>x != y\<close> and \<open>x < y\<close> on floats: every comparison with NaN is false
  except \<open>!=\<close>, and \<open>-0.0 == 0.0\<close>.\<close>

definition feq :: "pyfloat \<Rightarrow> pyfloat \<Rightarrow> bool" where
  "feq x y =
     (if is_nan x \<or> is_nan y then False
      else if is_finite x \<and> is_finite y then fin_val x = fin_val y
      else x = y)"

definition fne :: "pyfloat \<Rightarrow> pyfloat \<Rightarrow> bool" where
  "fne x y = (\<not> feq x y)"

definition flt :: "pyfloat \<Rightarrow> pyfloat \<Rightarrow> bool" where
  "flt x y =
     (if is_nan x \<or> is_nan y then False
      else if is_finite x \<and> is_finite y then fin_val x < fin_val y
      else if x = NInf then y \<noteq> NInf
      else if y = PInf then x \<noteq> PInf
      else False)"

text \<open>\<open>x - y\<close>.\<close>

definition fsub :: "pyfloat \<Rightarrow> pyfloat \<Rightarrow> pyfloat" where
  "fsub x y =
     (if is_nan x \<or> is_nan y then NaN
      else if is_finite x \<and> is_finite y then
        (let r = fin_val x - fin_val y
         in if r = 0 then (if x = NZero \<and> y = Fin 0 then NZero else Fin 0)
            else round64 (r < 0) \<bar>r\<bar>)
      else if is_finite x then (if y = PInf then NInf else PInf)
      else if is_finite y then x
      else if x = y then NaN else x)"

text \<open>\<open>abs(x)\<close>.\<close>

definition fabs :: "pyfloat \<Rightarrow> pyfloat" where
  "fabs x = (case x of Fin q \<Rightarrow> Fin \<bar>q\<bar> | NZero \<Rightarrow> Fin 0 | PInf \<Rightarrow> PInf
             | NInf \<Rightarrow> PInf | NaN \<Rightarrow> NaN)"

text \<open>\<open>x / y\<close>: Python raises \<open>ZeroDivisionError\<close> for a zero divisor.\<close>

definition fdiv :: "pyfloat \<Rightarrow> pyfloat \<Rightarrow> error + pyfloat" where
  "fdiv x y =
     (if is_zero y then Inl ZeroDivisionError
      else if is_nan x \<or> is_nan y then Inr NaN
      else let neg = (sign_bit x \<noteq> sign_bit y)
           in if is_finite x \<and> is_finite y then
                Inr (round64 neg \<bar>fin_val x / fin_val y\<bar>)
              else if is_finite x then Inr (if neg then NZero else Fin 0)
              else if is_finite y then Inr (if neg then NInf else PInf)
              else Inr NaN)"

subsection \<open>Strings\<close>

definition is_digit :: "char \<Rightarrow> bool" where
  "is_digit c = (let n = (of_char c :: nat) in 48 \<le> n \<and> n \<le> 57)"

text \<open>\<open>str.isspace\<close>, which is also the class \<open>\s\<close> of \<open>re\<close>, on the code points below 256.\<close>

definition is_space :: "char \<Rightarrow> bool" where
  "is_space c =
     (let n = (of_char c :: nat)
      in (9 \<le> n \<and> n \<le> 13) \<or> (28 \<le> n \<and> n \<le> 32) \<or> n = 133 \<or> n = 160)"

text \<open>The class \<open>\w\<close> of \<open>re\<close> on the code points below 256: the alphanumeric characters
  and the underscore.\<close>

definition is_word :: "char \<Rightarrow> bool" where
  "is_word c =
     (let n = (of_char c :: nat)
      in (48 \<le> n \<and> n \<le> 57) \<or> (65 \<le> n \<and> n \<le> 90) \<or> n = 95 \<or> (97 \<le> n \<and> n \<le> 122)
         \<or> n = 170 \<or> n = 178 \<or> n = 179 \<or> n = 181 \<or> n = 185 \<or> n = 186
         \<or> (188 \<le> n \<and> n \<le> 190) \<or> (192 \<le> n \<and> n \<le> 214) \<or> (216 \<le> n \<and> n \<le> 246)
         \<or> (248 \<le> n \<and> n \<le> 255))"

text \<open>\<open>s.strip()\<close>.\<close>

definition py_strip :: "string \<Rightarrow> string" where
  "py_strip s = rev (dropWhile is_space (rev (dropWhile is_space s)))"

text \<open>\<open>s.replace(a, b)\<close> for a one-character \<open>a\<close>.\<close>

definition replace_char :: "char \<Rightarrow> string \<Rightarrow> string \<Rightarrow> string" where
  "replace_char a b s = concat (map (\<lambda>c. if c = a then b else [c]) s)"

subsection \<open>The built-in conversion of a string to a float\<close>

text \<open>
  \<open>float(s)\<close> accepts, between optional white space, an optional sign followed by
  \<open>inf\<close>, \<open>infinity\<close> or \<open>nan\<close> in any case, or by a decimal number with an optional
  exponent; single underscores may separate digits. Every other string raises
  \<open>ValueError\<close>, which is \<open>None\<close> here. The white space of \<open>float\<close> is the ASCII white
  space and, of the other code points below 256, the two spaces 133 and 160.
\<close>

definition is_float_space :: "char \<Rightarrow> bool" where
  "is_float_space c =
     (let n = (of_char c :: nat) in (9 \<le> n \<and> n \<le> 13) \<or> n = 32 \<or> n = 133 \<or> n = 160)"

fun strip_underscores :: "char \<Rightarrow> string \<Rightarrow> string option" where
  "strip_underscores prev [] = (if prev = CHR ''_'' then None else Some [])"
| "strip_underscores prev (c # cs) =
     (if c = CHR ''_'' then
        (if is_digit prev then strip_underscores c cs else None)
      else if prev = CHR ''_'' \<and> \<not> is_digit c then None
      else map_option ((#) c) (strip_underscores c cs))"

definition lower :: "char \<Rightarrow> char" where
  "lower c = (let n = (of_char c :: nat) in if 65 \<le> n \<and> n \<le> 90 then char_of (n + 32) else c)"

definition digits_int :: "string \<Rightarrow> int" where
  "digits_int ds = foldl (\<lambda>a c. 10 * a + (of_char c - 48)) 0 ds"

definition parse_sign :: "string \<Rightarrow> bool \<times> string" where
  "parse_sign s =
     (case s of
        [] \<Rightarrow> (False, s)
      | c # r \<Rightarrow> if c = CHR ''-'' then (True, r) else if c = CHR ''+'' then (False, r)
                 else (False, s))"

definition parse_exponent :: "string \<Rightarrow> int option" where
  "parse_exponent s =
     (case s of
        [] \<Rightarrow> Some 0
      | c # r \<Rightarrow>
          if c = CHR ''e'' \<or> c = CHR ''E'' then
            (let (neg, ds) = parse_sign r
             in if ds \<noteq> [] \<and> list_all is_digit ds
                then Some (if neg then - digits_int ds else digits_int ds)
                else None)
          else None)"

definition parse_float_literal :: "string \<Rightarrow> pyfloat option" where
  "parse_float_literal s =
     (let (neg, r) = parse_sign s; l = map lower r
      in if l = ''inf'' \<or> l = ''infinity'' then Some (if neg then NInf else PInf)
         else if l = ''nan'' then Some NaN
         else
           let ip = takeWhile is_digit r; r1 = dropWhile is_digit r;
               (fp, r2) = (case r1 of
                             [] \<Rightarrow> ([], r1)
                           | c # t \<Rightarrow> if c = CHR ''.''
                                      then (takeWhile is_digit t, dropWhile is_digit t)
                                      else ([], r1))
           in if ip = [] \<and> fp = [] then None
              else case parse_exponent r2 of
                     None \<Rightarrow> None
                   | Some ex \<Rightarrow>
                       Some (round64 neg
                               (of_int (digits_int (ip @ fp)) * pow10 (ex - int (length fp)))))"

definition float_of_str :: "string \<Rightarrow> pyfloat option" where
  "float_of_str s =
     (case strip_underscores (CHR 0x00) s of
        None \<Rightarrow> None
      | Some u \<Rightarrow>
          parse_float_literal
            (rev (dropWhile is_float_space (rev (dropWhile is_float_space u)))))"

subsection \<open>Dictionaries, truth values, iteration\<close>

text \<open>
  A dictionary is an association list in insertion order with one entry for each key.
  \<open>d.get(k)\<close> is \<open>None\<close> for an absent key; \<open>d[k] = v\<close> replaces the value of a
  present key where it stands and appends a new key, which is \<^const>\<open>AList.update\<close>.
\<close>

definition dict_get :: "pydict \<Rightarrow> string \<Rightarrow> pyval" where
  "dict_get d k = (case map_of d k of None \<Rightarrow> VNone | Some v \<Rightarrow> v)"

definition dict_get_default :: "pydict \<Rightarrow> string \<Rightarrow> pyval \<Rightarrow> pyval" where
  "dict_get_default d k dflt = (case map_of d k of None \<Rightarrow> dflt | Some v \<Rightarrow> v)"

fun truthy :: "pyval \<Rightarrow> bool" where
  "truthy VNone = False"
| "truthy (VBool b) = b"
| "truthy (VInt i) = (i \<noteq> 0)"
| "truthy (VFloat x) = (\<not> is_zero x)"
| "truthy (VStr s) = (s \<noteq> [])"
| "truthy (VList xs) = (xs \<noteq> [])"
| "truthy (VTuple xs) = (xs \<noteq> [])"
| "truthy (VDict d) = (d \<noteq> [])"

text \<open>\<open>a or b\<close>.\<close>

definition py_or :: "pyval \<Rightarrow> pyval \<Rightarrow> pyval" where
  "py_or a b = (if truthy a then a else b)"

text \<open>The elements that \<open>for x in v\<close> runs through; a value that is not iterable raises
  \<open>TypeError\<close>.\<close>

fun py_iter :: "pyval \<Rightarrow> error + pyval list" where
  "py_iter (VList xs) = Inr xs"
| "py_iter (VTuple xs) = Inr xs"
| "py_iter (VStr s) = Inr (map (\<lambda>c. VStr [c]) s)"
| "py_iter (VDict d) = Inr (map (\<lambda>(k, v). VStr k) d)"
| "py_iter v = Inl TypeError"

text \<open>\<open>line.get(k)\<close>: only a dictionary has the method.\<close>

fun line_get :: "pyval \<Rightarrow> string \<Rightarrow> error + pyval" where
  "line_get (VDict d) k = Inr (dict_get d k)"
| "line_get v k = Inl AttributeError"

text \<open>\<open>v.strip()\<close>: only a string has the method.\<close>

fun strip_method :: "pyval \<Rightarrow> error + string" where
  "strip_method (VStr s) = Inr (py_strip s)"
| "strip_method v = Inl AttributeError"

section \<open>order\_compare.py\<close>

text \<open>\<open>_parse_number\<close> of \<open>order_compare.py\<close>. A \<open>bool\<close> is an \<open>int\<close> in Python.\<close>

fun parse_number :: "pyval \<Rightarrow> error + pyfloat option" where
  "parse_number VNone = Inr None"
| "parse_number (VBool b) = Inr (Some (Fin (if b then 1 else 0)))"
| "parse_number (VInt i) = bind_err (float_of_int i) (\<lambda>x. Inr (Some x))"
| "parse_number (VFloat x) = Inr (Some x)"
| "parse_number (VStr s) =
     (let cleaned = replace_char (CHR '','') ''.'' (replace_char (CHR ''.'') [] s)
      in Inr (float_of_str cleaned))"
| "parse_number v = Inr None"

record report =
  differenze :: "pydict list"
  righe_mancanti_nella_conferma :: "pydict list"
  righe_extra_nella_conferma :: "pydict list"

text \<open>\<open>doc.get("righe", []) or []\<close>.\<close>

definition get_righe :: "pydict \<Rightarrow> pyval" where
  "get_righe doc = py_or (dict_get_default doc ''righe'' (VList [])) (VList [])"

text \<open>The key expression \<open>(line.get("codice") or "").strip()\<close>, on the value of
  \<open>line.get("codice")\<close>.\<close>

definition code_key :: "pyval \<Rightarrow> error + string" where
  "code_key v = strip_method (py_or v (VStr []))"

text \<open>
  The dictionary comprehension
  \<open>{(line.get("codice") or "").strip(): line for line in lines if line.get("codice") is not None}\<close>,
  from the dictionary built so far.
\<close>

fun build_index :: "pyval list \<Rightarrow> (string \<times> pydict) list \<Rightarrow> error + (string \<times> pydict) list" where
  "build_index [] acc = Inr acc"
| "build_index (line # rest) acc =
     (case line of
        VDict d \<Rightarrow>
          (if dict_get d ''codice'' \<noteq> VNone then
             (case code_key (dict_get d ''codice'') of
                Inl e \<Rightarrow> Inl e
              | Inr k \<Rightarrow> build_index rest (AList.update k d acc))
           else build_index rest acc)
      | _ \<Rightarrow> Inl AttributeError)"

definition doc_index :: "pydict \<Rightarrow> error + (string \<times> pydict) list" where
  "doc_index doc = bind_err (py_iter (get_righe doc)) (\<lambda>lines. build_index lines [])"

definition nota_text :: string where
  "nota_text = ''Possibile differenza unit'' @ [CHR 0xE0] @ '' di misura (pezzi vs cartoni).''"

text \<open>\<open>o is not None and c is not None and o != c\<close>.\<close>

definition both_differ :: "pyfloat option \<Rightarrow> pyfloat option \<Rightarrow> bool" where
  "both_differ o_v c_v =
     (case o_v of None \<Rightarrow> False
      | Some x \<Rightarrow> (case c_v of None \<Rightarrow> False | Some y \<Rightarrow> fne x y))"

text \<open>\<open>if o is not None and c is not None and o != c: discrepancy[field] = (o, c)\<close>.\<close>

definition set_pair :: "string \<Rightarrow> pyfloat option \<Rightarrow> pyfloat option \<Rightarrow> pydict \<Rightarrow> pydict" where
  "set_pair field o_v c_v discrepancy =
     (case o_v of
        None \<Rightarrow> discrepancy
      | Some x \<Rightarrow>
          (case c_v of
             None \<Rightarrow> discrepancy
           | Some y \<Rightarrow>
               if fne x y then AList.update field (VTuple [VFloat x, VFloat y]) discrepancy
               else discrepancy))"

text \<open>\<open>discrepancy.setdefault("nota", []).append(msg)\<close>.\<close>

definition append_nota :: "pydict \<Rightarrow> string \<Rightarrow> pydict" where
  "append_nota d msg =
     (case map_of d ''nota'' of
        Some (VList xs) \<Rightarrow> AList.update ''nota'' (VList (xs @ [VStr msg])) d
      | _ \<Rightarrow> AList.update ''nota'' (VList [VStr msg]) d)"

text \<open>The unit-of-measure heuristic on the parsed quantities and totals.\<close>

definition unit_mismatch ::
  "pyfloat option \<Rightarrow> pyfloat option \<Rightarrow> pyfloat option \<Rightarrow> pyfloat option \<Rightarrow> pyfloat \<Rightarrow> error + bool" where
  "unit_mismatch o_qta c_qta o_total c_total tolerance =
     (if both_differ o_qta c_qta then
        (case o_total of
           None \<Rightarrow> Inr False
         | Some ot \<Rightarrow>
             (case c_total of
                None \<Rightarrow> Inr False
              | Some ct \<Rightarrow>
                  if fne ot (Fin 0) then
                    bind_err (fdiv (fabs (fsub ot ct)) ot) (\<lambda>rel_diff. Inr (flt rel_diff tolerance))
                  else Inr False))
      else Inr False)"

text \<open>The body of the first loop for a code that both documents have: the discrepancy
  record of the two lines.\<close>

definition compare_lines :: "string \<Rightarrow> pydict \<Rightarrow> pydict \<Rightarrow> pyfloat \<Rightarrow> error + pydict" where
  "compare_lines code o_line c_line tolerance =
     (let d0 = [(''codice'', VStr code)] in
      bind_err (parse_number (dict_get o_line ''quantita'')) (\<lambda>o_qta.
      bind_err (parse_number (dict_get c_line ''quantita'')) (\<lambda>c_qta.
      let d1 = set_pair ''quantita'' o_qta c_qta d0 in
      bind_err (parse_number (dict_get o_line ''prezzo_unitario'')) (\<lambda>o_price.
      bind_err (parse_number (dict_get c_line ''prezzo_unitario'')) (\<lambda>c_price.
      let d2 = set_pair ''prezzo_unitario'' o_price c_price d1 in
      bind_err (parse_number (dict_get o_line ''totale_riga'')) (\<lambda>o_total.
      bind_err (parse_number (dict_get c_line ''totale_riga'')) (\<lambda>c_total.
      let d3 = set_pair ''totale_riga'' o_total c_total d2 in
      bind_err (unit_mismatch o_qta c_qta o_total c_total tolerance) (\<lambda>flag.
      Inr (if flag then append_nota d3 nota_text else d3)))))))))"

text \<open>The first loop, over the items of the original's index, with the two lists it
  appends to.\<close>

fun compare_loop ::
  "(string \<times> pydict) list \<Rightarrow> (string \<times> pydict) list \<Rightarrow> pyfloat \<Rightarrow> pydict list \<Rightarrow> pydict list
     \<Rightarrow> error + (pydict list \<times> pydict list)" where
  "compare_loop [] conf_dict tolerance differences missing_in_conf = Inr (differences, missing_in_conf)"
| "compare_loop ((code, o_line) # rest) conf_dict tolerance differences missing_in_conf =
     (case map_of conf_dict code of
        None \<Rightarrow> compare_loop rest conf_dict tolerance differences (missing_in_conf @ [o_line])
      | Some c_line \<Rightarrow>
          (case compare_lines code o_line c_line tolerance of
             Inl e \<Rightarrow> Inl e
           | Inr discrepancy \<Rightarrow>
               compare_loop rest conf_dict tolerance
                 (if length discrepancy > 1 then differences @ [discrepancy] else differences)
                 missing_in_conf))"

text \<open>The second loop: the confirmation's lines whose code the original lacks.\<close>

definition extra_lines :: "(string \<times> pydict) list \<Rightarrow> (string \<times> pydict) list \<Rightarrow> pydict list" where
  "extra_lines orig_dict conf_dict =
     map snd (filter (\<lambda>(code, c_line). map_of orig_dict code = None) conf_dict)"

definition compare_orders :: "pydict \<Rightarrow> pydict \<Rightarrow> pyfloat \<Rightarrow> error + report" where
  "compare_orders original confirmation tolerance =
     bind_err (doc_index original) (\<lambda>orig_dict.
     bind_err (doc_index confirmation) (\<lambda>conf_dict.
     bind_err (compare_loop orig_dict conf_dict tolerance [] []) (\<lambda>(differences, missing_in_conf).
     Inr \<lparr>differenze = differences,
          righe_mancanti_nella_conferma = missing_in_conf,
          righe_extra_nella_conferma = extra_lines orig_dict conf_dict\<rparr>)))"

text \<open>The default \<open>tolerance = 0.05\<close>: the binary64 number that the literal denotes.\<close>

definition default_tolerance :: pyfloat where
  "default_tolerance = round64 False (5 / 100)"

section \<open>parse\_orders.py\<close>

text \<open>\<open>_parse_number\<close> of \<open>parse_orders.py\<close>; \<open>None\<close> is the \<open>ValueError\<close> of \<open>float\<close>.\<close>

definition parse_number_token :: "string \<Rightarrow> pyfloat option" where
  "parse_number_token token =
     float_of_str (replace_char (CHR '','') ''.'' (replace_char (CHR ''.'') [] token))"

text \<open>\<open>s.split(sep)\<close> for a one-character separator.\<close>

fun split_on :: "char \<Rightarrow> string \<Rightarrow> string list" where
  "split_on sep [] = [[]]"
| "split_on sep (c # cs) =
     (if c = sep then [] # split_on sep cs
      else (case split_on sep cs of [] \<Rightarrow> [[c]] | x # xs \<Rightarrow> (c # x) # xs))"

text \<open>\<open>sub in s\<close>.\<close>

fun contains :: "string \<Rightarrow> string \<Rightarrow> bool" where
  "contains sub [] = (sub = [])"
| "contains sub (c # cs) = (take (length sub) (c # cs) = sub \<or> contains sub cs)"

text \<open>\<open>re.match(r"^\d{4}\b", s)\<close>: four digits, then the end of the string or a character
  that is not a word character.\<close>

definition row_pattern :: "string \<Rightarrow> bool" where
  "row_pattern s =
     (case s of
        a # b # c # d # rest \<Rightarrow>
          is_digit a \<and> is_digit b \<and> is_digit c \<and> is_digit d
          \<and> (case rest of [] \<Rightarrow> True | x # xs \<Rightarrow> \<not> is_word x)
      | _ \<Rightarrow> False)"

text \<open>\<open>re.split(r"\s+", s)\<close>.\<close>

function re_split_space :: "string \<Rightarrow> string list" where
  "re_split_space [] = [[]]"
| "re_split_space (c # cs) =
     (if is_space c then [] # re_split_space (dropWhile is_space cs)
      else (case re_split_space cs of [] \<Rightarrow> [[c]] | x # xs \<Rightarrow> (c # x) # xs))"
  by pat_completeness auto
termination
  by (relation "measure length") (auto simp: length_dropWhile_le le_imp_less_Suc)

text \<open>\<open>sep.join(xs)\<close>.\<close>

fun join_with :: "string \<Rightarrow> string list \<Rightarrow> string" where
  "join_with sep [] = []"
| "join_with sep [x] = x"
| "join_with sep (x # y # ys) = x @ sep @ join_with sep (y # ys)"

text \<open>
  The decomposition of a line that matches the row pattern; \<open>None\<close> is a row that the
  loop skips with \<open>continue\<close>. The two length checks come before every index, so each
  index is in range: with \<open>n\<close> the length of \<open>remainder\<close>, \<open>remainder[-k]\<close> is the element
  \<open>n - k\<close> and \<open>remainder[:-6]\<close> the first \<open>n - 6\<close> elements.
\<close>

definition parse_row :: "string \<Rightarrow> pydict option" where
  "parse_row stripped =
     (let parts = re_split_space stripped in
      if length parts < 8 then None
      else
        let code = parts ! 0;
            supplier_code = parts ! 1;
            remainder = drop 2 parts;
            n = length remainder
        in if n < 6 then None
           else
             let unita_misura = remainder ! (n - 6);
                 quantity_token = remainder ! (n - 5);
                 price_token = remainder ! (n - 4);
                 importo_token = remainder ! (n - 2);
                 description = py_strip (join_with '' '' (take (n - 6) remainder))
             in case parse_number_token quantity_token of
                  None \<Rightarrow> None
                | Some quantity \<Rightarrow>
                    (case parse_number_token price_token of
                       None \<Rightarrow> None
                     | Some price_unit \<Rightarrow>
                         (case parse_number_token importo_token of
                            None \<Rightarrow> None
                          | Some importo \<Rightarrow>
                              Some [(''codice'', VStr code),
                                    (''codice_fornitore'', VStr supplier_code),
                                    (''descrizione'', VStr description),
                                    (''unita_misura'', VStr unita_misura),
                                    (''quantita'', VFloat quantity),
                                    (''prezzo_unitario'', VFloat price_unit),
                                    (''importo'', VFloat importo)])))"

text \<open>The loop over the lines, with the flag \<open>table_started\<close> and the items so far.\<close>

fun scan_lines :: "bool \<Rightarrow> string list \<Rightarrow> pydict list \<Rightarrow> pydict list" where
  "scan_lines table_started [] items = items"
| "scan_lines table_started (line # rest) items =
     (if \<not> table_started then
        (if contains ''Codice Fornitore'' line \<and> contains ''Descrizione'' line
         then scan_lines True rest items
         else scan_lines table_started rest items)
      else if contains ''Totale Merce'' line then items
      else
        let stripped = py_strip line
        in if stripped = [] then scan_lines table_started rest items
           else if row_pattern stripped then
             (case parse_row stripped of
                None \<Rightarrow> scan_lines table_started rest items
              | Some item \<Rightarrow> scan_lines table_started rest (items @ [item]))
           else scan_lines table_started rest items)"

text \<open>\<open>parse_items\<close>, from the text that \<open>pdftotext -layout\<close> printed for the file.\<close>

definition parse_items :: "string \<Rightarrow> pydict list" where
  "parse_items raw_text = scan_lines False (split_on (CHR 0x0A) raw_text) []"

section \<open>Notions that the properties are stated with\<close>

text \<open>The key under which the comprehension stores a line; \<open>None\<close> for a line that it
  leaves out or that makes it raise.\<close>

definition line_key :: "pyval \<Rightarrow> string option" where
  "line_key line =
     (case line of
        VDict d \<Rightarrow>
          (if dict_get d ''codice'' \<noteq> VNone then
             (case code_key (dict_get d ''codice'') of Inl e \<Rightarrow> None | Inr k \<Rightarrow> Some k)
           else None)
      | _ \<Rightarrow> None)"

text \<open>The record with code \<open>k\<close> that comes last in the sequence.\<close>

fun last_with_code :: "string \<Rightarrow> pyval list \<Rightarrow> pydict option" where
  "last_with_code k [] = None"
| "last_with_code k (line # rest) =
     (case last_with_code k rest of
        Some d \<Rightarrow> Some d
      | None \<Rightarrow>
          (case line of
             VDict d \<Rightarrow> if line_key line = Some k then Some d else None
           | _ \<Rightarrow> None))"

text \<open>The same by positions: \<open>d\<close> stands in the sequence with code \<open>k\<close>, and no record
  after it has that code.\<close>

definition latest_record :: "pyval list \<Rightarrow> string \<Rightarrow> pydict \<Rightarrow> bool" where
  "latest_record lines k d =
     (\<exists>before after. lines = before @ VDict d # after \<and> line_key (VDict d) = Some k
        \<and> (\<forall>l \<in> set after. line_key l \<noteq> Some k))"

text \<open>A value of \<open>codice\<close> on which the key expression does not raise: a string, or a
  value that counts as false (\<open>None\<close> among them).\<close>

definition codice_ok :: "pyval \<Rightarrow> bool" where
  "codice_ok v = (case v of VStr s \<Rightarrow> True | _ \<Rightarrow> \<not> truthy v)"

text \<open>A value of a numeric field on which \<open>_parse_number\<close> does not raise: anything but
  an \<open>int\<close> beyond the range of a float.\<close>

definition number_ok :: "pyval \<Rightarrow> bool" where
  "number_ok v = (case parse_number v of Inl e \<Rightarrow> False | Inr x \<Rightarrow> True)"

fun line_ok :: "pyval \<Rightarrow> bool" where
  "line_ok (VDict d) =
     (codice_ok (dict_get d ''codice'') \<and> number_ok (dict_get d ''quantita'')
      \<and> number_ok (dict_get d ''prezzo_unitario'') \<and> number_ok (dict_get d ''totale_riga''))"
| "line_ok v = False"

text \<open>The \<open>righe\<close> of a document are absent, or a sequence of such records.\<close>

definition righe_ok :: "pydict \<Rightarrow> bool" where
  "righe_ok doc =
     (case get_righe doc of
        VList xs \<Rightarrow> list_all line_ok xs
      | VTuple xs \<Rightarrow> list_all line_ok xs
      | _ \<Rightarrow> False)"

text \<open>A value of a numeric field that parses to nothing or to a number other than NaN.\<close>

definition number_plain :: "pyval \<Rightarrow> bool" where
  "number_plain v =
     (case parse_number v of
        Inl e \<Rightarrow> False
      | Inr None \<Rightarrow> True
      | Inr (Some x) \<Rightarrow> \<not> is_nan x)"

fun line_plain :: "pyval \<Rightarrow> bool" where
  "line_plain (VDict d) =
     (codice_ok (dict_get d ''codice'') \<and> number_plain (dict_get d ''quantita'')
      \<and> number_plain (dict_get d ''prezzo_unitario'') \<and> number_plain (dict_get d ''totale_riga''))"
| "line_plain v = False"

definition righe_plain :: "pydict \<Rightarrow> bool" where
  "righe_plain doc =
     (case get_righe doc of
        VList xs \<Rightarrow> list_all line_plain xs
      | VTuple xs \<Rightarrow> list_all line_plain xs
      | _ \<Rightarrow> False)"

text \<open>The codes of a list of line items, and of a list of discrepancy records.\<close>

definition item_codes :: "pydict list \<Rightarrow> string set" where
  "item_codes items = {k. \<exists>d \<in> set items. line_key (VDict d) = Some k}"

definition record_codes :: "pydict list \<Rightarrow> string set" where
  "record_codes records = {k. \<exists>r \<in> set records. map_of r ''codice'' = Some (VStr k)}"

text \<open>The three numeric fields of an extracted record are present and hold floats.\<close>

definition has_numbers :: "pydict \<Rightarrow> bool" where
  "has_numbers item =
     (\<exists>q p t. map_of item ''quantita'' = Some (VFloat q)
        \<and> map_of item ''prezzo_unitario'' = Some (VFloat p)
        \<and> map_of item ''importo'' = Some (VFloat t))"

text \<open>The document \<open>{"righe": lines}\<close>.\<close>

definition righe_doc :: "pyval list \<Rightarrow> pydict" where
  "righe_doc lines = [(''righe'', VList lines)]"

section \<open>Facts about the embedding\<close>

subsection \<open>Errors\<close>

lemma bind_err_Inr: "bind_err m f = Inr y \<longleftrightarrow> (\<exists>x. m = Inr x \<and> f x = Inr y)"
  by (cases m) (simp_all add: bind_err_def)

lemma bind_err_simps [simp]: "bind_err (Inr x) f = f x" "bind_err (Inl e) f = Inl e"
  by (simp_all add: bind_err_def)

subsection \<open>Rounding to binary64\<close>

lemma pow2_powi: "pow2 k = power_int 2 k"
  by (simp add: pow2_def power_int_def inverse_eq_divide power_one_over)

lemma pow2_pos: "0 < pow2 k"
  by (simp add: pow2_powi)

lemma pow2_less_mono: "k < l \<Longrightarrow> pow2 k < pow2 l"
  by (simp add: pow2_powi power_int_strict_increasing)

lemma pow2_mono: "k \<le> l \<Longrightarrow> pow2 k \<le> pow2 l"
  by (simp add: pow2_powi power_int_increasing)

lemma pow2_add: "pow2 (k + l) = pow2 k * pow2 l"
  by (simp add: pow2_powi power_int_add)

lemma pow2_diff: "pow2 (k - l) = pow2 k / pow2 l"
  by (simp add: pow2_powi power_int_diff)

lemma bit_length_nonneg: "0 \<le> bit_length n"
  by (induction n rule: bit_length.induct) (subst bit_length.simps, auto)

lemma bit_length_pos: "0 < n \<Longrightarrow> 0 < bit_length n"
  using bit_length_nonneg[of "n div 2"] by (subst bit_length.simps) simp

lemma bit_length_bounds:
  "0 < n \<Longrightarrow> 2 ^ nat (bit_length n - 1) \<le> n \<and> n < 2 ^ nat (bit_length n)"
proof (induction n rule: bit_length.induct)
  case (1 n)
  show ?case
  proof (cases "n = 1")
    case True
    have "bit_length 1 = 1"
      by (subst bit_length.simps, subst bit_length.simps) simp
    with True show ?thesis by simp
  next
    case False
    with "1.prems" have h: "0 < n div 2" by simp
    from "1.IH" h "1.prems" have IH:
      "2 ^ nat (bit_length (n div 2) - 1) \<le> n div 2" "n div 2 < 2 ^ nat (bit_length (n div 2))"
      by simp_all
    have bl: "bit_length n = 1 + bit_length (n div 2)"
      using "1.prems" by (subst bit_length.simps) simp
    have p: "0 < bit_length (n div 2)" using h by (rule bit_length_pos)
    then have e: "nat (bit_length (n div 2)) = Suc (nat (bit_length (n div 2) - 1))"
      by simp
    have "2 ^ nat (bit_length n - 1) = 2 * (2::int) ^ nat (bit_length (n div 2) - 1)"
      using bl e by simp
    also have "\<dots> \<le> 2 * (n div 2)" using IH(1) by simp
    also have "\<dots> \<le> n" by simp
    finally have lo: "2 ^ nat (bit_length n - 1) \<le> n" .
    have "n < 2 * (n div 2 + 1)" by simp
    also have "\<dots> \<le> 2 * 2 ^ nat (bit_length (n div 2))" using IH(2) by simp
    also have "\<dots> = 2 ^ nat (bit_length n)" using bl p by (simp add: nat_add_distrib)
    finally have hi: "n < 2 ^ nat (bit_length n)" .
    from lo hi show ?thesis by simp
  qed
qed

lemma bit_length_bounds_rat:
  assumes "0 < n"
  shows "pow2 (bit_length n - 1) \<le> of_int n" "of_int n < pow2 (bit_length n)"
proof -
  from bit_length_bounds[OF assms] have
    lo: "(2::int) ^ nat (bit_length n - 1) \<le> n" and hi: "n < 2 ^ nat (bit_length n)" by simp_all
  have p: "0 < bit_length n" using assms by (rule bit_length_pos)
  have "pow2 (bit_length n - 1) = of_int (2 ^ nat (bit_length n - 1))"
    using p by (simp add: pow2_def)
  also have "\<dots> \<le> of_int n" using lo by (simp only: of_int_le_iff)
  finally show "pow2 (bit_length n - 1) \<le> of_int n" .
  have "(of_int n :: rat) < of_int (2 ^ nat (bit_length n))" using hi by (simp only: of_int_less_iff)
  also have "\<dots> = pow2 (bit_length n)" using p by (simp add: pow2_def)
  finally show "of_int n < pow2 (bit_length n)" .
qed

lemma floor_log2_bounds:
  assumes "0 < a"
  shows "pow2 (floor_log2 a) \<le> a \<and> a < pow2 (floor_log2 a + 1)"
proof -
  obtain n d where q: "quotient_of a = (n, d)" by (cases "quotient_of a")
  then have d: "0 < d" and a: "a = of_int n / of_int d"
    by (simp_all add: quotient_of_denom_pos quotient_of_div)
  with assms have n: "0 < n" by (simp add: zero_less_divide_iff)
  define k where "k = bit_length n - bit_length d"
  note bn = bit_length_bounds_rat[OF n] and bd = bit_length_bounds_rat[OF d]
  have dpos: "(0::rat) < of_int d" using d by simp
  have "a < pow2 (bit_length n) / of_int d"
    unfolding a using bn(2) dpos by (simp add: divide_strict_right_mono)
  also have "\<dots> \<le> pow2 (bit_length n) / pow2 (bit_length d - 1)"
    using bd(1) pow2_pos[of "bit_length n"] pow2_pos[of "bit_length d - 1"]
    by (simp add: frac_le)
  also have "\<dots> = pow2 (k + 1)"
    unfolding k_def by (simp add: pow2_diff[symmetric] algebra_simps)
  finally have hi: "a < pow2 (k + 1)" .
  have "pow2 (k - 1) = pow2 (bit_length n - 1) / pow2 (bit_length d)"
    unfolding k_def by (simp add: pow2_diff[symmetric] algebra_simps)
  also have "\<dots> \<le> of_int n / pow2 (bit_length d)"
    using bn(1) pow2_pos[of "bit_length d"] by (simp add: divide_right_mono)
  also have "\<dots> \<le> a"
    unfolding a using bd(2) dpos n by (simp add: frac_le)
  finally have lo: "pow2 (k - 1) \<le> a" .
  have fl: "floor_log2 a = (if pow2 k \<le> a then k else k - 1)"
    by (simp add: floor_log2_def q k_def Let_def)
  show ?thesis
  proof (cases "pow2 k \<le> a")
    case True
    with fl hi show ?thesis by simp
  next
    case False
    with fl lo show ?thesis by simp
  qed
qed

lemma floor_log2_eq:
  assumes "pow2 e \<le> a" "a < pow2 (e + 1)"
  shows "floor_log2 a = e"
proof -
  have "0 < a" using assms(1) pow2_pos[of e] by simp
  from floor_log2_bounds[OF this] have
    b: "pow2 (floor_log2 a) \<le> a" "a < pow2 (floor_log2 a + 1)" by simp_all
  have "pow2 e < pow2 (floor_log2 a + 1)" using assms(1) b(2) by simp
  then have 1: "e < floor_log2 a + 1"
    using pow2_mono[of "floor_log2 a + 1" e] by (cases "e < floor_log2 a + 1") auto
  have "pow2 (floor_log2 a) < pow2 (e + 1)" using assms(2) b(1) by simp
  then have 2: "floor_log2 a < e + 1"
    using pow2_mono[of "e + 1" "floor_log2 a"] by (cases "floor_log2 a < e + 1") auto
  from 1 2 show ?thesis by simp
qed

lemma round_half_even_of_int: "round_half_even (of_int z) = z"
  by (simp add: round_half_even_def)

lemma round64_normal:
  assumes "pow2 e \<le> a" "a < pow2 (e + 1)" "- 1022 \<le> e"
    and "round_half_even (a / pow2 (e - 52)) = r" "0 < r"
    and "of_int r * pow2 (e - 52) < pow2 1024"
  shows "round64 neg a = Fin (if neg then - (of_int r * pow2 (e - 52)) else of_int r * pow2 (e - 52))"
proof -
  have a: "a \<noteq> 0" using assms(1) pow2_pos[of e] by auto
  have fl: "floor_log2 a = e" using assms(1,2) by (rule floor_log2_eq)
  have m: "of_int r * pow2 (e - 52) \<noteq> 0" using assms(5) pow2_pos[of "e - 52"] by simp
  show ?thesis
    using a fl m assms(3,4,6) by (simp add: round64_def Let_def max_def)
qed

lemma round64_of_int:
  assumes "0 < n" "n < 2 ^ 53"
  shows "round64 neg (of_int n) = Fin (if neg then - of_int n else of_int n)"
proof -
  define a :: rat where "a = of_int n"
  define e where "e = floor_log2 a"
  have apos: "0 < a" using assms(1) by (simp add: a_def)
  from floor_log2_bounds[OF apos] have b: "pow2 e \<le> a" "a < pow2 (e + 1)"
    by (simp_all add: e_def)
  have "pow2 0 \<le> a" using assms(1) by (simp add: a_def pow2_def)
  with b(2) have "pow2 0 < pow2 (e + 1)" by simp
  then have e0: "0 \<le> e" using pow2_mono[of "e + 1" 0] by (cases "0 \<le> e") auto
  have "(of_int n :: rat) < of_int (2 ^ 53)" using assms(2) by (simp only: of_int_less_iff)
  then have a53: "a < pow2 53" by (simp add: a_def pow2_def)
  with b(1) have "pow2 e < pow2 53" by simp
  then have e52: "e \<le> 52" using pow2_mono[of 53 e] by (cases "e \<le> 52") auto
  have p: "pow2 (e - 52) = 1 / 2 ^ nat (52 - e)"
    using e52 by (cases "e = 52") (simp_all add: pow2_def)
  have q: "a / pow2 (e - 52) = of_int (n * 2 ^ nat (52 - e))"
    by (simp add: p a_def)
  have r: "round_half_even (a / pow2 (e - 52)) = n * 2 ^ nat (52 - e)"
    unfolding q by (rule round_half_even_of_int)
  have v: "of_int (n * 2 ^ nat (52 - e)) * pow2 (e - 52) = a"
    by (simp add: p a_def)
  have "round64 neg a = Fin (if neg then - (of_int (n * 2 ^ nat (52 - e)) * pow2 (e - 52))
                             else of_int (n * 2 ^ nat (52 - e)) * pow2 (e - 52))"
  proof (rule round64_normal[OF b _ r])
    show "- 1022 \<le> e" using e0 by simp
    show "0 < n * 2 ^ nat (52 - e)" using assms(1) by simp
    have "a < pow2 1024" using a53 pow2_less_mono[of 53 1024] by simp
    then show "of_int (n * 2 ^ nat (52 - e)) * pow2 (e - 52) < pow2 1024" unfolding v .
  qed
  then show ?thesis unfolding v by (simp add: a_def)
qed

lemma float_of_int_small:
  assumes "\<bar>i\<bar> < 2 ^ 53"
  shows "float_of_int i = Inr (Fin (of_int i))"
proof (cases "i = 0")
  case True
  then show ?thesis by (simp add: float_of_int_def round64_def)
next
  case False
  then have "0 < \<bar>i\<bar>" by simp
  from round64_of_int[OF this assms, of "i < 0"]
  have "round64 (i < 0) \<bar>of_int i\<bar> = Fin (of_int i)"
    by (cases "i < 0") (simp_all add: abs_if)
  then show ?thesis by (simp add: float_of_int_def)
qed

lemma round_half_even_eqI:
  assumes "of_int r - 1 / 2 < m" "m < of_int r + 1 / 2"
  shows "round_half_even m = r"
proof -
  have "\<lfloor>m\<rfloor> = r \<or> \<lfloor>m\<rfloor> = r - 1"
    using assms by linarith
  then show ?thesis
  proof
    assume f: "\<lfloor>m\<rfloor> = r"
    then show ?thesis using assms by (simp add: round_half_even_def Let_def)
  next
    assume f: "\<lfloor>m\<rfloor> = r - 1"
    then show ?thesis using assms by (simp add: round_half_even_def Let_def)
  qed
qed

lemma pow2_numeral [simp]:
  "pow2 (numeral k) = 2 ^ numeral k"
  "pow2 (- numeral k) = 1 / 2 ^ numeral k"
  "pow2 0 = 1" "pow2 1 = 2"
  by (simp_all add: pow2_def)


lemma round64_numeral:
  "(numeral k :: int) < 2 ^ 53 \<Longrightarrow>
   round64 neg (numeral k) = Fin (if neg then - numeral k else numeral k)"
  using round64_of_int[of "numeral k" neg] by simp

lemma round64_0_02: "round64 False (1 / 50) = Fin (5764607523034235 / 288230376151711744)"
proof -
  have "round64 False (1 / 50) = Fin (if False then - (of_int 5764607523034235 * pow2 (- 6 - 52))
          else of_int 5764607523034235 * pow2 (- 6 - 52))"
  proof (rule round64_normal)
    show "round_half_even (1 / 50 / pow2 (- 6 - 52)) = 5764607523034235"
      by (rule round_half_even_eqI) simp_all
  qed simp_all
  then show ?thesis by simp
qed

lemma round64_0_05: "round64 False (1 / 20) = Fin (3602879701896397 / 72057594037927936)"
proof -
  have "round64 False (1 / 20) = Fin (if False then - (of_int 7205759403792794 * pow2 (- 5 - 52))
          else of_int 7205759403792794 * pow2 (- 5 - 52))"
  proof (rule round64_normal)
    show "round_half_even (1 / 20 / pow2 (- 5 - 52)) = 7205759403792794"
      by (rule round_half_even_eqI) simp_all
  qed simp_all
  then show ?thesis by simp
qed

lemma default_tolerance_value:
  "default_tolerance = Fin (3602879701896397 / 72057594037927936)"
  using round64_0_05 by (simp add: default_tolerance_def)

lemma round64_1234_56:
  "round64 False (30864 / 25) = Fin (2714826150374277 / 2199023255552)"
proof -
  have "round64 False (30864 / 25) = Fin (if False then - (of_int 5429652300748554 * pow2 (10 - 52))
          else of_int 5429652300748554 * pow2 (10 - 52))"
  proof (rule round64_normal)
    show "round_half_even (30864 / 25 / pow2 (10 - 52)) = 5429652300748554"
      by (rule round_half_even_eqI) simp_all
  qed simp_all
  then show ?thesis by simp
qed

lemma round64_12_5: "round64 False (25 / 2) = Fin (25 / 2)"
proof -
  have "round64 False (25 / 2) = Fin (if False then - (of_int 7036874417766400 * pow2 (3 - 52))
          else of_int 7036874417766400 * pow2 (3 - 52))"
  proof (rule round64_normal)
    show "round_half_even (25 / 2 / pow2 (3 - 52)) = 7036874417766400"
      by (rule round_half_even_eqI) simp_all
  qed simp_all
  then show ?thesis by simp
qed

lemmas float_parse_defs =
  float_of_str_def parse_float_literal_def parse_sign_def parse_exponent_def is_digit_def
  is_float_space_def lower_def digits_int_def pow10_def replace_char_def Let_def

lemmas float_defs =
  fne_def feq_def flt_def fsub_def fabs_def fdiv_def is_nan_def is_finite_def is_zero_def
  fin_val_def sign_bit_def

lemmas compare_defs =
  compare_orders_def doc_index_def get_righe_def py_or_def dict_get_default_def dict_get_def
  code_key_def py_strip_def is_space_def compare_lines_def set_pair_def both_differ_def
  unit_mismatch_def append_nota_def extra_lines_def Let_def

subsection \<open>The index of a document\<close>

lemma line_key_VDict: "line_key l = Some k \<Longrightarrow> \<exists>d. l = VDict d"
  by (cases l) (simp_all add: line_key_def)

lemma last_with_code_None:
  "last_with_code k lines = None \<longleftrightarrow> (\<forall>l \<in> set lines. line_key l \<noteq> Some k)"
  by (induction lines) (auto split: option.splits pyval.splits dest: line_key_VDict)

lemma last_with_code_append:
  "\<forall>l \<in> set after. line_key l \<noteq> Some k \<Longrightarrow> line_key (VDict d) = Some k \<Longrightarrow>
   last_with_code k (before @ VDict d # after) = Some d"
proof (induction before)
  case Nil
  then have "last_with_code k after = None" by (simp add: last_with_code_None)
  with Nil show ?case by simp
next
  case (Cons x before)
  then show ?case by simp
qed

lemma last_with_code_latest:
  "last_with_code k lines = Some d \<longleftrightarrow> latest_record lines k d"
proof
  show "last_with_code k lines = Some d \<Longrightarrow> latest_record lines k d"
  proof (induction lines)
    case Nil
    then show ?case by simp
  next
    case (Cons line rest)
    show ?case
    proof (cases "last_with_code k rest")
      case (Some d')
      with Cons.prems have "d' = d" by simp
      with Some Cons.IH obtain before after where
        "rest = before @ VDict d # after" "line_key (VDict d) = Some k"
        "\<forall>l \<in> set after. line_key l \<noteq> Some k"
        by (auto simp: latest_record_def)
      then have "line # rest = (line # before) @ VDict d # after" by simp
      with \<open>line_key (VDict d) = Some k\<close> \<open>\<forall>l \<in> set after. line_key l \<noteq> Some k\<close>
      show ?thesis unfolding latest_record_def by blast
    next
      case None
      with Cons.prems have "line = VDict d" "line_key line = Some k"
        by (auto split: pyval.splits if_splits)
      moreover from None have "\<forall>l \<in> set rest. line_key l \<noteq> Some k"
        by (simp add: last_with_code_None)
      ultimately have "line # rest = [] @ VDict d # rest \<and> line_key (VDict d) = Some k
          \<and> (\<forall>l \<in> set rest. line_key l \<noteq> Some k)" by simp
      then show ?thesis unfolding latest_record_def by blast
    qed
  qed
next
  assume "latest_record lines k d"
  then show "last_with_code k lines = Some d"
    by (auto simp: latest_record_def last_with_code_append)
qed

lemma build_index_map_of:
  "build_index lines acc = Inr idx \<Longrightarrow>
   map_of idx k = (case last_with_code k lines of Some d \<Rightarrow> Some d | None \<Rightarrow> map_of acc k)"
proof (induction lines arbitrary: acc)
  case Nil
  then show ?case by simp
next
  case (Cons line rest)
  show ?case
  proof (cases line)
    case (VDict d)
    show ?thesis
    proof (cases "dict_get d ''codice'' = VNone")
      case True
      with Cons.prems VDict have "build_index rest acc = Inr idx" by simp
      from Cons.IH[OF this] True VDict show ?thesis
        by (simp add: line_key_def split: option.splits)
    next
      case False
      with Cons.prems VDict obtain k' where
        k': "code_key (dict_get d ''codice'') = Inr k'"
        and b: "build_index rest (AList.update k' d acc) = Inr idx"
        by (auto split: sum.splits)
      from Cons.IH[OF b] False VDict k' show ?thesis
        by (auto simp: line_key_def update_conv' split: option.splits)
    qed
  qed (use Cons.prems in simp_all)
qed

lemma build_index_distinct:
  "build_index lines acc = Inr idx \<Longrightarrow> distinct (map fst acc) \<Longrightarrow> distinct (map fst idx)"
proof (induction lines arbitrary: acc)
  case Nil
  then show ?case by simp
next
  case (Cons line rest)
  then show ?case
    by (cases line) (auto split: sum.splits if_splits simp: distinct_update)
qed

lemma build_index_latest:
  assumes "build_index lines [] = Inr idx"
  shows "(k, d) \<in> set idx \<longleftrightarrow> latest_record lines k d"
proof -
  have dist: "distinct (map fst idx)" using build_index_distinct[OF assms] by simp
  have "map_of idx k = last_with_code k lines"
    using build_index_map_of[OF assms, of k] by (simp split: option.splits)
  then have "map_of idx k = Some d \<longleftrightarrow> latest_record lines k d"
    by (simp add: last_with_code_latest)
  with dist show ?thesis by simp
qed

lemma latest_record_line:
  "latest_record lines k d \<Longrightarrow> VDict d \<in> set lines \<and> line_key (VDict d) = Some k"
  by (auto simp: latest_record_def)

lemma doc_index_Inr:
  "doc_index doc = Inr idx \<longleftrightarrow>
   (\<exists>lines. py_iter (get_righe doc) = Inr lines \<and> build_index lines [] = Inr idx)"
  by (simp add: doc_index_def bind_err_Inr)

lemma compare_loop_missing:
  "compare_loop od cd tol ds ms = Inr (ds', ms') \<Longrightarrow>
   ms' = ms @ map snd (filter (\<lambda>(k, d). map_of cd k = None) od)"
proof (induction od arbitrary: ds ms)
  case Nil
  then show ?case by simp
next
  case (Cons a od)
  obtain code o_line where a: "a = (code, o_line)" by (cases a)
  show ?case
  proof (cases "map_of cd code")
    case None
    with Cons.prems a have
      "compare_loop od cd tol ds (ms @ [o_line]) = Inr (ds', ms')" by simp
    from Cons.IH[OF this] None a show ?thesis by simp
  next
    case (Some c_line)
    with Cons.prems a obtain r where
      "compare_loop od cd tol (if length r > 1 then ds @ [r] else ds) ms = Inr (ds', ms')"
      by (auto split: sum.splits)
    from Cons.IH[OF this] Some a show ?thesis by simp
  qed
qed

lemma compare_loop_differences:
  "compare_loop od cd tol ds ms = Inr (ds', ms') \<Longrightarrow> r \<in> set ds' \<Longrightarrow>
   r \<in> set ds \<or>
   (\<exists>k o_line c_line. (k, o_line) \<in> set od \<and> map_of cd k = Some c_line
      \<and> compare_lines k o_line c_line tol = Inr r)"
proof (induction od arbitrary: ds ms)
  case Nil
  then show ?case by simp
next
  case (Cons a od)
  obtain code o_line where a: "a = (code, o_line)" by (cases a)
  show ?case
  proof (cases "map_of cd code")
    case None
    with Cons.prems a have
      "compare_loop od cd tol ds (ms @ [o_line]) = Inr (ds', ms')" by simp
    from Cons.IH[OF this Cons.prems(2)] show ?thesis by auto
  next
    case (Some c_line)
    with Cons.prems a obtain r' where
      r': "compare_lines code o_line c_line tol = Inr r'" and
      l: "compare_loop od cd tol (if length r' > 1 then ds @ [r'] else ds) ms = Inr (ds', ms')"
      by (auto split: sum.splits)
    from Cons.IH[OF l Cons.prems(2)] r' Some a show ?thesis
      by (auto split: if_splits)
  qed
qed

subsection \<open>The comparison\<close>

lemma compare_orders_Inr:
  "compare_orders original confirmation tol = Inr rep \<longleftrightarrow>
   (\<exists>od cd ds ms. doc_index original = Inr od \<and> doc_index confirmation = Inr cd
      \<and> compare_loop od cd tol [] [] = Inr (ds, ms)
      \<and> rep = \<lparr>differenze = ds, righe_mancanti_nella_conferma = ms,
                righe_extra_nella_conferma = extra_lines od cd\<rparr>)"
  by (auto simp: compare_orders_def bind_err_Inr)

lemma compare_lines_Inr:
  "compare_lines code o_line c_line tol = Inr r \<longleftrightarrow>
   (\<exists>o_qta c_qta o_price c_price o_total c_total flag.
      parse_number (dict_get o_line ''quantita'') = Inr o_qta
    \<and> parse_number (dict_get c_line ''quantita'') = Inr c_qta
    \<and> parse_number (dict_get o_line ''prezzo_unitario'') = Inr o_price
    \<and> parse_number (dict_get c_line ''prezzo_unitario'') = Inr c_price
    \<and> parse_number (dict_get o_line ''totale_riga'') = Inr o_total
    \<and> parse_number (dict_get c_line ''totale_riga'') = Inr c_total
    \<and> unit_mismatch o_qta c_qta o_total c_total tol = Inr flag
    \<and> r = (let d3 = set_pair ''totale_riga'' o_total c_total
                      (set_pair ''prezzo_unitario'' o_price c_price
                        (set_pair ''quantita'' o_qta c_qta [(''codice'', VStr code)]))
           in if flag then append_nota d3 nota_text else d3))"
  by (auto simp: compare_lines_def bind_err_Inr Let_def)

lemma map_of_set_pair_other:
  "k \<noteq> field \<Longrightarrow> map_of (set_pair field a b d) k = map_of d k"
  by (simp add: set_pair_def update_conv' split: option.splits)

lemma map_of_set_pair_same:
  "both_differ a b \<Longrightarrow>
   \<exists>x y. a = Some x \<and> b = Some y \<and> fne x y
     \<and> map_of (set_pair field a b d) field = Some (VTuple [VFloat x, VFloat y])"
  by (auto simp: set_pair_def both_differ_def update_conv' split: option.splits)

lemma map_of_append_nota_other:
  "k \<noteq> ''nota'' \<Longrightarrow> map_of (append_nota d msg) k = map_of d k"
  by (simp add: append_nota_def update_conv' split: option.splits pyval.splits)

lemma unit_mismatch_True:
  "unit_mismatch o_qta c_qta o_total c_total tol = Inr True \<Longrightarrow> both_differ o_qta c_qta"
  by (auto simp: unit_mismatch_def split: if_splits)

lemma compare_lines_codice:
  assumes "compare_lines code o_line c_line tol = Inr r"
  shows "map_of r ''codice'' = Some (VStr code)"
  using assms unfolding compare_lines_Inr
  by (auto simp: Let_def map_of_set_pair_other map_of_append_nota_other)

lemma compare_lines_nota:
  assumes "compare_lines code o_line c_line tol = Inr r" "map_of r ''nota'' \<noteq> None"
  shows "\<exists>x y. map_of r ''quantita'' = Some (VTuple [VFloat x, VFloat y]) \<and> fne x y"
proof -
  from assms(1) obtain o_qta c_qta o_price c_price o_total c_total flag where
    um: "unit_mismatch o_qta c_qta o_total c_total tol = Inr flag" and
    r: "r = (let d3 = set_pair ''totale_riga'' o_total c_total
                      (set_pair ''prezzo_unitario'' o_price c_price
                        (set_pair ''quantita'' o_qta c_qta [(''codice'', VStr code)]))
           in if flag then append_nota d3 nota_text else d3)"
    unfolding compare_lines_Inr by blast
  have flag: flag
  proof (rule ccontr)
    assume "\<not> flag"
    then have "map_of r ''nota'' = None"
      by (simp add: r Let_def map_of_set_pair_other)
    with assms(2) show False by simp
  qed
  with um have "both_differ o_qta c_qta" by (simp add: unit_mismatch_True)
  from map_of_set_pair_same[OF this, of "''quantita''" "[(''codice'', VStr code)]"]
  obtain x y where xy: "fne x y"
    "map_of (set_pair ''quantita'' o_qta c_qta [(''codice'', VStr code)]) ''quantita''
       = Some (VTuple [VFloat x, VFloat y])" by blast
  have "map_of r ''quantita'' = Some (VTuple [VFloat x, VFloat y])"
    using flag xy(2) by (simp add: r Let_def map_of_set_pair_other map_of_append_nota_other)
  with xy(1) show ?thesis by blast
qed

lemma line_key_codice: "line_key (VDict d) = Some k \<Longrightarrow> dict_get d ''codice'' \<noteq> VNone"
  by (auto simp: line_key_def split: if_splits)

lemma missing_lines_def2:
  "compare_loop od cd tol [] [] = Inr (ds, ms) \<Longrightarrow>
   ms = map snd (filter (\<lambda>(k, d). map_of cd k = None) od)"
  using compare_loop_missing[of od cd tol "[]" "[]" ds ms] by simp

lemma in_missing:
  assumes "compare_loop od cd tol [] [] = Inr (ds, ms)" "d \<in> set ms"
  shows "\<exists>k. (k, d) \<in> set od \<and> map_of cd k = None"
  using assms(2) unfolding missing_lines_def2[OF assms(1)] by auto

lemma in_extra:
  assumes "d \<in> set (extra_lines od cd)"
  shows "\<exists>k. (k, d) \<in> set cd \<and> map_of od k = None"
  using assms by (auto simp: extra_lines_def)

lemma in_differences:
  assumes "compare_loop od cd tol [] [] = Inr (ds, ms)" "r \<in> set ds"
  shows "\<exists>k o_line c_line. (k, o_line) \<in> set od \<and> map_of cd k = Some c_line
           \<and> compare_lines k o_line c_line tol = Inr r"
  using compare_loop_differences[OF assms] by simp

lemma in_index_map_of:
  assumes "build_index lines [] = Inr idx"
  shows "map_of idx k = Some d \<longleftrightarrow> (k, d) \<in> set idx"
  using build_index_distinct[OF assms] by simp

lemma py_strip_spaces:
  assumes "list_all is_space s"
  shows "py_strip s = []"
proof -
  have h: "dropWhile is_space s = []"
    using assms by (induction s) simp_all
  show ?thesis unfolding py_strip_def h by simp
qed

lemma line_key_string:
  "dict_get d ''codice'' = VStr s \<Longrightarrow> line_key (VDict d) = Some (py_strip s)"
  by (simp add: line_key_def code_key_def py_or_def py_strip_def)


lemma index_has_key:
  assumes "build_index lines [] = Inr idx" "l \<in> set lines" "line_key l = Some k"
  shows "\<exists>d. map_of idx k = Some d \<and> latest_record lines k d"
proof -
  have "last_with_code k lines \<noteq> None"
    using assms(2,3) by (auto simp: last_with_code_None)
  then obtain d where d: "last_with_code k lines = Some d" by auto
  have "map_of idx k = last_with_code k lines"
    using build_index_map_of[OF assms(1), of k] by (simp split: option.splits)
  with d have "map_of idx k = Some d" by simp
  moreover from d have "latest_record lines k d" by (simp add: last_with_code_latest)
  ultimately show ?thesis by blast
qed

lemma indexed_line_in_missing:
  assumes "compare_loop od cd tol [] [] = Inr (ds, ms)" "(k, d) \<in> set od" "map_of cd k = None"
  shows "d \<in> set ms"
  using assms(2,3) unfolding missing_lines_def2[OF assms(1)] by force

lemma indexed_line_in_extra:
  assumes "(k, d) \<in> set cd" "map_of od k = None"
  shows "d \<in> set (extra_lines od cd)"
  using assms by (force simp: extra_lines_def)

subsection \<open>Inputs on which the comparison returns\<close>

lemma code_key_ok: "codice_ok v \<Longrightarrow> \<exists>k. code_key v = Inr k"
  by (cases v) (auto simp: codice_ok_def code_key_def py_or_def)

lemma build_index_ok:
  "list_all line_ok lines \<Longrightarrow> \<exists>idx. build_index lines acc = Inr idx"
proof (induction lines arbitrary: acc)
  case Nil
  then show ?case by simp
next
  case (Cons line rest)
  from Cons.prems obtain d where d: "line = VDict d" "codice_ok (dict_get d ''codice'')"
    by (cases line) auto
  from code_key_ok[OF d(2)] obtain k where k: "code_key (dict_get d ''codice'') = Inr k" ..
  from Cons.prems have "list_all line_ok rest" by simp
  from Cons.IH[OF this] d(1) k show ?case by simp
qed

lemma righe_ok_lines:
  "righe_ok doc \<Longrightarrow> \<exists>lines. py_iter (get_righe doc) = Inr lines \<and> list_all line_ok lines"
  by (cases "get_righe doc") (auto simp: righe_ok_def)

lemma fdiv_nonzero: "fne y (Fin 0) \<Longrightarrow> \<exists>q. fdiv x y = Inr q"
  by (auto simp: fdiv_def fne_def feq_def is_zero_def is_nan_def is_finite_def fin_val_def Let_def)

lemma unit_mismatch_total: "\<exists>flag. unit_mismatch o_qta c_qta o_total c_total tol = Inr flag"
proof (cases "both_differ o_qta c_qta")
  case False
  then show ?thesis by (auto simp: unit_mismatch_def)
next
  case True
  show ?thesis
  proof (cases o_total)
    case None
    with True show ?thesis by (auto simp: unit_mismatch_def)
  next
    case (Some ot)
    show ?thesis
    proof (cases c_total)
      case None
      with True Some show ?thesis by (auto simp: unit_mismatch_def)
    next
      case (Some ct)
      show ?thesis
      proof (cases "fne ot (Fin 0)")
        case False
        with True \<open>o_total = Some ot\<close> Some show ?thesis by (auto simp: unit_mismatch_def)
      next
        case ne: True
        from fdiv_nonzero[OF ne, of "fabs (fsub ot ct)"] obtain q where
          "fdiv (fabs (fsub ot ct)) ot = Inr q" ..
        with True \<open>o_total = Some ot\<close> Some ne show ?thesis by (auto simp: unit_mismatch_def)
      qed
    qed
  qed
qed

lemma number_ok_Inr: "number_ok v \<Longrightarrow> \<exists>x. parse_number v = Inr x"
  by (simp add: number_ok_def split: sum.splits)

lemma compare_lines_ok:
  assumes "line_ok (VDict o_line)" "line_ok (VDict c_line)"
  shows "\<exists>r. compare_lines code o_line c_line tol = Inr r"
proof -
  from assms obtain a b c d e f where
    "parse_number (dict_get o_line ''quantita'') = Inr a"
    "parse_number (dict_get c_line ''quantita'') = Inr b"
    "parse_number (dict_get o_line ''prezzo_unitario'') = Inr c"
    "parse_number (dict_get c_line ''prezzo_unitario'') = Inr d"
    "parse_number (dict_get o_line ''totale_riga'') = Inr e"
    "parse_number (dict_get c_line ''totale_riga'') = Inr f"
    using number_ok_Inr by (metis line_ok.simps(1))
  moreover obtain flag where "unit_mismatch a b e f tol = Inr flag"
    using unit_mismatch_total by blast
  ultimately show ?thesis unfolding compare_lines_Inr by blast
qed

lemma compare_loop_ok:
  assumes "\<forall>(k, d) \<in> set od. line_ok (VDict d)" "\<forall>(k, d) \<in> set cd. line_ok (VDict d)"
  shows "\<exists>res. compare_loop od cd tol ds ms = Inr res"
  using assms(1)
proof (induction od arbitrary: ds ms)
  case Nil
  then show ?case by simp
next
  case (Cons a od)
  obtain code o_line where a: "a = (code, o_line)" by (cases a)
  from Cons.prems a have o: "line_ok (VDict o_line)" and
    rest: "\<forall>(k, d) \<in> set od. line_ok (VDict d)" by auto
  show ?case
  proof (cases "map_of cd code")
    case None
    with Cons.IH[OF rest] a show ?thesis by simp
  next
    case (Some c_line)
    then have "(code, c_line) \<in> set cd" by (rule map_of_SomeD)
    with assms(2) have "line_ok (VDict c_line)" by auto
    from compare_lines_ok[OF o this] obtain r where
      "compare_lines code o_line c_line tol = Inr r" by blast
    with Cons.IH[OF rest] Some a show ?thesis by simp
  qed
qed

lemma index_lines_ok:
  assumes "build_index lines [] = Inr idx" "list_all P lines"
  shows "\<forall>(k, d) \<in> set idx. P (VDict d)"
  using build_index_latest[OF assms(1)] latest_record_line[of lines] assms(2)
  by (fastforce simp: list_all_iff)


subsection \<open>A document against itself\<close>

lemma fne_same: "\<not> is_nan x \<Longrightarrow> \<not> fne x x"
  by (simp add: fne_def feq_def)

lemma number_plain_same:
  assumes "number_plain v"
  shows "\<exists>a. parse_number v = Inr a \<and> \<not> both_differ a a \<and> set_pair field a a d = d"
proof (cases "parse_number v")
  case (Inl e)
  with assms show ?thesis by (simp add: number_plain_def)
next
  case (Inr a)
  with assms show ?thesis
    by (cases a) (simp_all add: number_plain_def both_differ_def set_pair_def fne_same)
qed

lemma compare_lines_same:
  assumes "line_plain (VDict d)"
  shows "compare_lines code d d tol = Inr [(''codice'', VStr code)]"
proof -
  let ?d0 = "[(''codice'', VStr code)]"
  from assms have p: "number_plain (dict_get d ''quantita'')"
    "number_plain (dict_get d ''prezzo_unitario'')" "number_plain (dict_get d ''totale_riga'')"
    by simp_all
  from number_plain_same[OF p(1), of "''quantita''" ?d0] obtain a where
    a: "parse_number (dict_get d ''quantita'') = Inr a" "\<not> both_differ a a"
       "set_pair ''quantita'' a a ?d0 = ?d0" by blast
  from number_plain_same[OF p(2), of "''prezzo_unitario''" ?d0] obtain b where
    b: "parse_number (dict_get d ''prezzo_unitario'') = Inr b"
       "set_pair ''prezzo_unitario'' b b ?d0 = ?d0" by blast
  from number_plain_same[OF p(3), of "''totale_riga''" ?d0] obtain c where
    c: "parse_number (dict_get d ''totale_riga'') = Inr c"
       "set_pair ''totale_riga'' c c ?d0 = ?d0" by blast
  have u: "unit_mismatch a a c c tol = Inr False"
    using a(2) by (simp add: unit_mismatch_def)
  show ?thesis
    by (simp add: compare_lines_def Let_def a(1,3) b c u)
qed

lemma compare_loop_same:
  assumes "\<forall>(k, d) \<in> set od. map_of cd k = Some d \<and> line_plain (VDict d)"
  shows "compare_loop od cd tol ds ms = Inr (ds, ms)"
  using assms
proof (induction od)
  case Nil
  then show ?case by simp
next
  case (Cons a od)
  obtain code d where a: "a = (code, d)" by (cases a)
  from Cons.prems a have h: "map_of cd code = Some d" "line_plain (VDict d)"
    and rest: "\<forall>(k, d) \<in> set od. map_of cd k = Some d \<and> line_plain (VDict d)" by auto
  from Cons.IH[OF rest] a h compare_lines_same[OF h(2), of code tol] show ?case by simp
qed

lemma number_plain_ok: "number_plain v \<Longrightarrow> number_ok v"
  by (simp add: number_plain_def number_ok_def split: sum.splits)

lemma line_plain_ok: "line_plain l \<Longrightarrow> line_ok l"
  by (cases l) (simp_all add: number_plain_ok)

lemma righe_plain_lines:
  "righe_plain doc \<Longrightarrow> \<exists>lines. py_iter (get_righe doc) = Inr lines \<and> list_all line_plain lines"
  by (cases "get_righe doc") (auto simp: righe_plain_def)


subsection \<open>The extractor\<close>

lemma parse_row_numbers: "parse_row s = Some item \<Longrightarrow> has_numbers item"
  by (auto simp: parse_row_def has_numbers_def Let_def split: if_splits option.splits)

lemma scan_lines_numbers:
  "list_all has_numbers items \<Longrightarrow> list_all has_numbers (scan_lines started lines items)"
proof (induction lines arbitrary: started items)
  case Nil
  then show ?case by simp
next
  case (Cons line rest)
  then show ?case
    by (auto simp: Let_def parse_row_numbers split: option.splits)
qed



subsection \<open>Overflow\<close>

lemma round64_overflow:
  assumes "pow2 1024 \<le> a"
  shows "round64 neg a = (if neg then NInf else PInf)"
proof -
  have apos: "0 < a" using assms pow2_pos[of 1024] by simp
  define e where "e = floor_log2 a"
  from floor_log2_bounds[OF apos] have b: "pow2 e \<le> a" "a < pow2 (e + 1)"
    by (simp_all add: e_def)
  from assms b(2) have "pow2 1024 < pow2 (e + 1)" by simp
  then have e: "1024 \<le> e" using pow2_mono[of "e + 1" 1024] by (cases "1024 \<le> e") auto
  define p where "p = e - 52"
  have pp: "0 < pow2 p" by (rule pow2_pos)
  have "pow2 52 = pow2 e / pow2 p" by (simp add: p_def pow2_diff[symmetric])
  also have "\<dots> \<le> a / pow2 p" using b(1) pp by (simp add: divide_right_mono)
  finally have x: "of_int (2 ^ 52) \<le> a / pow2 p" by simp
  then have f: "2 ^ 52 \<le> \<lfloor>a / pow2 p\<rfloor>" by (simp only: le_floor_iff)
  have "\<lfloor>a / pow2 p\<rfloor> \<le> round_half_even (a / pow2 p)"
    by (simp add: round_half_even_def Let_def)
  with f have r: "2 ^ 52 \<le> round_half_even (a / pow2 p)" by (rule order_trans)
  then have "(of_int (2 ^ 52) :: rat) \<le> of_int (round_half_even (a / pow2 p))"
    by (simp only: of_int_le_iff)
  then have "of_int (2 ^ 52) * pow2 p \<le> of_int (round_half_even (a / pow2 p)) * pow2 p"
    using pp by (simp only: mult_le_cancel_right_pos)
  moreover have "of_int (2 ^ 52) * pow2 p = pow2 e"
    using pow2_add[of 52 p] by (simp add: p_def)
  moreover have "pow2 1024 \<le> pow2 e" using e by (rule pow2_mono)
  ultimately have m: "pow2 1024 \<le> of_int (round_half_even (a / pow2 p)) * pow2 p" by simp
  then have nz: "of_int (round_half_even (a / pow2 p)) * pow2 p \<noteq> 0"
    using pow2_pos[of 1024] by auto
  have mx: "max e (- 1022) - 52 = p" using e by (simp add: p_def)
  have "a \<noteq> 0" using apos by simp
  then show ?thesis
    using m nz by (simp add: round64_def Let_def e_def[symmetric] mx)
qed

lemma float_of_int_overflow: "2 ^ 1024 \<le> i \<Longrightarrow> float_of_int i = Inl OverflowError"
proof -
  assume h: "2 ^ 1024 \<le> i"
  then have "(of_int (2 ^ 1024) :: rat) \<le> of_int i" by (simp only: of_int_le_iff)
  then have "pow2 1024 \<le> \<bar>of_int i\<bar>" by simp
  from round64_overflow[OF this] show ?thesis by (simp add: float_of_int_def)
qed

subsection \<open>Evaluation\<close>

lemmas eval_defs = compare_defs float_defs righe_doc_def

lemmas extract_defs =
  parse_items_def parse_row_def row_pattern_def py_strip_def is_space_def is_digit_def is_word_def
  parse_number_token_def

section \<open>The claims\<close>

text \<open>
  C1. The end-to-end scenario: original rows with codes \<open>0001\<close> (quantity 5, unit price
  2.0, line total 10.0) and \<open>0002\<close>, confirmation rows with codes \<open>0001\<close> (quantity 5,
  unit price 2.5, line total 12.5) and \<open>0003\<close>. With the line total under \<open>importo\<close>,
  as \<open>parse_items\<close> writes it, the record for \<open>0001\<close> carries the pair of unit prices
  and no pair of totals: the comparator reads the total under \<open>totale_riga\<close> only. With
  the total under \<open>totale_riga\<close> the same rows give both pairs.
\<close>

theorem end_to_end_scenario_totals_not_compared:
  "compare_orders
     (righe_doc [VDict [(''codice'', VStr ''0001''), (''quantita'', VInt 5),
                        (''prezzo_unitario'', VFloat (Fin 2)), (''importo'', VFloat (Fin 10))],
                 VDict [(''codice'', VStr ''0002''), (''quantita'', VInt 3)]])
     (righe_doc [VDict [(''codice'', VStr ''0001''), (''quantita'', VInt 5),
                        (''prezzo_unitario'', VFloat (Fin (5 / 2))),
                        (''importo'', VFloat (Fin (25 / 2)))],
                 VDict [(''codice'', VStr ''0003''), (''quantita'', VInt 1)]])
     default_tolerance
   = Inr \<lparr>differenze =
             [[(''codice'', VStr ''0001''),
               (''prezzo_unitario'', VTuple [VFloat (Fin 2), VFloat (Fin (5 / 2))])]],
           righe_mancanti_nella_conferma = [[(''codice'', VStr ''0002''), (''quantita'', VInt 3)]],
           righe_extra_nella_conferma = [[(''codice'', VStr ''0003''), (''quantita'', VInt 1)]]\<rparr>
   \<and> compare_orders
       (righe_doc [VDict [(''codice'', VStr ''0001''), (''quantita'', VInt 5),
                          (''prezzo_unitario'', VFloat (Fin 2)), (''totale_riga'', VFloat (Fin 10))],
                   VDict [(''codice'', VStr ''0002''), (''quantita'', VInt 3)]])
       (righe_doc [VDict [(''codice'', VStr ''0001''), (''quantita'', VInt 5),
                          (''prezzo_unitario'', VFloat (Fin (5 / 2))),
                          (''totale_riga'', VFloat (Fin (25 / 2)))],
                   VDict [(''codice'', VStr ''0003''), (''quantita'', VInt 1)]])
       default_tolerance
     = Inr \<lparr>differenze =
               [[(''codice'', VStr ''0001''),
                 (''prezzo_unitario'', VTuple [VFloat (Fin 2), VFloat (Fin (5 / 2))]),
                 (''totale_riga'', VTuple [VFloat (Fin 10), VFloat (Fin (25 / 2))])]],
             righe_mancanti_nella_conferma = [[(''codice'', VStr ''0002''), (''quantita'', VInt 3)]],
             righe_extra_nella_conferma = [[(''codice'', VStr ''0003''), (''quantita'', VInt 1)]]\<rparr>"
  by (simp add: eval_defs float_of_int_small)

text \<open>
  C2, as the claim states it, fails: a line whose \<open>codice\<close> is the empty string is
  indexed, under the empty key, and so is a line whose \<open>codice\<close> is white space only. The
  first appears among the lines missing in the confirmation; two such lines of the two
  documents are matched with each other and compared.
\<close>

theorem empty_code_is_indexed:
  "compare_orders
     (righe_doc [VDict [(''codice'', VStr ''''), (''quantita'', VInt 3)]])
     (righe_doc [])
     default_tolerance
   = Inr \<lparr>differenze = [],
           righe_mancanti_nella_conferma = [[(''codice'', VStr ''''), (''quantita'', VInt 3)]],
           righe_extra_nella_conferma = []\<rparr>
   \<and> compare_orders
       (righe_doc [VDict [(''codice'', VStr ''''), (''quantita'', VInt 3)]])
       (righe_doc [VDict [(''codice'', VStr ''  ''), (''quantita'', VInt 4)]])
       default_tolerance
     = Inr \<lparr>differenze =
               [[(''codice'', VStr ''''), (''quantita'', VTuple [VFloat (Fin 3), VFloat (Fin 4)])]],
             righe_mancanti_nella_conferma = [],
             righe_extra_nella_conferma = []\<rparr>"
  by (simp add: eval_defs float_of_int_small)

text \<open>
  C2, amended. Whenever \<open>compare_orders\<close> returns a report, every line of the two
  indexes has a \<open>codice\<close> other than \<open>None\<close> (which is also what \<open>get\<close> gives for an
  absent key), so a line whose \<open>codice\<close> is absent or \<open>None\<close> is in neither index and
  in none of the three lists: the missing and the extra lines have a \<open>codice\<close>, and every
  discrepancy record comes from two indexed lines. A line whose \<open>codice\<close> is a string of
  white space only (the empty string among them) is not left out: when a side's sequence
  has such a line, the side's index has an entry under the empty key, the latest record of
  the sequence whose code trims to the empty string. And no indexed line is dropped later:
  a line of the original's index is among the missing lines or its key is in the
  confirmation's index, and a line of the confirmation's index is among the extra lines or
  its key is in the original's index.
\<close>

theorem absent_code_excluded:
  assumes "compare_orders original confirmation tolerance = Inr rep"
  shows "\<exists>orig_lines conf_lines orig_dict conf_dict.
           py_iter (get_righe original) = Inr orig_lines
         \<and> py_iter (get_righe confirmation) = Inr conf_lines
         \<and> build_index orig_lines [] = Inr orig_dict
         \<and> build_index conf_lines [] = Inr conf_dict
         \<and> (\<forall>(k, d) \<in> set orig_dict \<union> set conf_dict. dict_get d ''codice'' \<noteq> VNone)
         \<and> (\<forall>d \<in> set (righe_mancanti_nella_conferma rep) \<union> set (righe_extra_nella_conferma rep).
               dict_get d ''codice'' \<noteq> VNone)
         \<and> (\<forall>r \<in> set (differenze rep). \<exists>k o_line c_line.
               (k, o_line) \<in> set orig_dict \<and> (k, c_line) \<in> set conf_dict
             \<and> dict_get o_line ''codice'' \<noteq> VNone \<and> dict_get c_line ''codice'' \<noteq> VNone
             \<and> compare_lines k o_line c_line tolerance = Inr r)
         \<and> (\<forall>d s. VDict d \<in> set orig_lines \<and> dict_get d ''codice'' = VStr s \<and> list_all is_space s
               \<longrightarrow> (\<exists>d'. map_of orig_dict [] = Some d' \<and> latest_record orig_lines [] d'))
         \<and> (\<forall>d s. VDict d \<in> set conf_lines \<and> dict_get d ''codice'' = VStr s \<and> list_all is_space s
               \<longrightarrow> (\<exists>d'. map_of conf_dict [] = Some d' \<and> latest_record conf_lines [] d'))
         \<and> (\<forall>(k, d) \<in> set orig_dict.
               d \<in> set (righe_mancanti_nella_conferma rep) \<or> map_of conf_dict k \<noteq> None)
         \<and> (\<forall>(k, d) \<in> set conf_dict.
               d \<in> set (righe_extra_nella_conferma rep) \<or> map_of orig_dict k \<noteq> None)"
proof -
  from assms obtain od cd ds ms where
    od: "doc_index original = Inr od" and cd: "doc_index confirmation = Inr cd" and
    l: "compare_loop od cd tolerance [] [] = Inr (ds, ms)" and
    rep: "rep = \<lparr>differenze = ds, righe_mancanti_nella_conferma = ms,
                righe_extra_nella_conferma = extra_lines od cd\<rparr>"
    unfolding compare_orders_Inr by blast
  from od obtain ol where io: "py_iter (get_righe original) = Inr ol"
    and bo: "build_index ol [] = Inr od" unfolding doc_index_Inr by blast
  from cd obtain cl where ic: "py_iter (get_righe confirmation) = Inr cl"
    and bc: "build_index cl [] = Inr cd" unfolding doc_index_Inr by blast
  have ko: "dict_get d ''codice'' \<noteq> VNone" if "(k, d) \<in> set od" for k d
    using that build_index_latest[OF bo, of k d] latest_record_line[of ol k d]
      line_key_codice[of d k] by simp
  have kc: "dict_get d ''codice'' \<noteq> VNone" if "(k, d) \<in> set cd" for k d
    using that build_index_latest[OF bc, of k d] latest_record_line[of cl k d]
      line_key_codice[of d k] by simp
  have 1: "\<forall>(k, d) \<in> set od \<union> set cd. dict_get d ''codice'' \<noteq> VNone"
    using ko kc by auto
  have 2: "\<forall>d \<in> set ms \<union> set (extra_lines od cd). dict_get d ''codice'' \<noteq> VNone"
    using in_missing[OF l] in_extra[of _ od cd] ko kc by blast
  have 3: "\<forall>r \<in> set ds. \<exists>k o_line c_line.
               (k, o_line) \<in> set od \<and> (k, c_line) \<in> set cd
             \<and> dict_get o_line ''codice'' \<noteq> VNone \<and> dict_get c_line ''codice'' \<noteq> VNone
             \<and> compare_lines k o_line c_line tolerance = Inr r"
  proof
    fix r assume "r \<in> set ds"
    from in_differences[OF l this] obtain k o_line c_line where
      h: "(k, o_line) \<in> set od" "map_of cd k = Some c_line"
         "compare_lines k o_line c_line tolerance = Inr r" by blast
    from h(2) have c: "(k, c_line) \<in> set cd" by (rule map_of_SomeD)
    from h(1,3) c ko[OF h(1)] kc[OF c] show "\<exists>k o_line c_line.
               (k, o_line) \<in> set od \<and> (k, c_line) \<in> set cd
             \<and> dict_get o_line ''codice'' \<noteq> VNone \<and> dict_get c_line ''codice'' \<noteq> VNone
             \<and> compare_lines k o_line c_line tolerance = Inr r" by blast
  qed
  have key: "line_key (VDict d) = Some []"
    if "dict_get d ''codice'' = VStr s" "list_all is_space s" for d s
    using that by (simp add: line_key_string py_strip_spaces)
  have 4: "\<forall>d s. VDict d \<in> set ol \<and> dict_get d ''codice'' = VStr s \<and> list_all is_space s
               \<longrightarrow> (\<exists>d'. map_of od [] = Some d' \<and> latest_record ol [] d')"
    using index_has_key[OF bo] key by blast
  have 5: "\<forall>d s. VDict d \<in> set cl \<and> dict_get d ''codice'' = VStr s \<and> list_all is_space s
               \<longrightarrow> (\<exists>d'. map_of cd [] = Some d' \<and> latest_record cl [] d')"
    using index_has_key[OF bc] key by blast
  have 6: "\<forall>(k, d) \<in> set od. d \<in> set ms \<or> map_of cd k \<noteq> None"
    using indexed_line_in_missing[OF l] by blast
  have 7: "\<forall>(k, d) \<in> set cd. d \<in> set (extra_lines od cd) \<or> map_of od k \<noteq> None"
    using indexed_line_in_extra[of _ _ cd od] by blast
  show ?thesis
    using io ic bo bc 1 2 3 4 5 6 7 by (simp add: rep)
qed

theorem absent_code_excluded_witness:
  "compare_orders
     (righe_doc [VDict [(''quantita'', VInt 3)],
                 VDict [(''codice'', VNone), (''quantita'', VInt 4)],
                 VDict [(''codice'', VStr ''  ''), (''quantita'', VInt 5)],
                 VDict [(''codice'', VStr ''0001''), (''quantita'', VInt 1)]])
     (righe_doc [VDict [(''quantita'', VInt 3)],
                 VDict [(''codice'', VStr ''0002''), (''quantita'', VInt 1)]])
     default_tolerance
   = Inr \<lparr>differenze = [],
           righe_mancanti_nella_conferma =
             [[(''codice'', VStr ''  ''), (''quantita'', VInt 5)],
              [(''codice'', VStr ''0001''), (''quantita'', VInt 1)]],
           righe_extra_nella_conferma = [[(''codice'', VStr ''0002''), (''quantita'', VInt 1)]]\<rparr>
   \<and> (\<exists>orig_dict d'.
         build_index [VDict [(''quantita'', VInt 3)],
                      VDict [(''codice'', VNone), (''quantita'', VInt 4)],
                      VDict [(''codice'', VStr ''  ''), (''quantita'', VInt 5)],
                      VDict [(''codice'', VStr ''0001''), (''quantita'', VInt 1)]] [] = Inr orig_dict
       \<and> map_of orig_dict [] = Some d'
       \<and> latest_record [VDict [(''quantita'', VInt 3)],
                         VDict [(''codice'', VNone), (''quantita'', VInt 4)],
                         VDict [(''codice'', VStr ''  ''), (''quantita'', VInt 5)],
                         VDict [(''codice'', VStr ''0001''), (''quantita'', VInt 1)]] [] d'
       \<and> d' \<in> set [[(''codice'', VStr ''  ''), (''quantita'', VInt 5)],
                    [(''codice'', VStr ''0001''), (''quantita'', VInt 1)]]
       \<and> dict_get d' ''codice'' \<noteq> VNone)"
proof -
  let ?ol = "[VDict [(''quantita'', VInt 3)],
              VDict [(''codice'', VNone), (''quantita'', VInt 4)],
              VDict [(''codice'', VStr ''  ''), (''quantita'', VInt 5)],
              VDict [(''codice'', VStr ''0001''), (''quantita'', VInt 1)]]"
  let ?cl = "[VDict [(''quantita'', VInt 3)],
              VDict [(''codice'', VStr ''0002''), (''quantita'', VInt 1)]]"
  let ?ms = "[[(''codice'', VStr ''  ''), (''quantita'', VInt 5)],
              [(''codice'', VStr ''0001''), (''quantita'', VInt 1)]]"
  let ?rep = "\<lparr>differenze = [], righe_mancanti_nella_conferma = ?ms,
               righe_extra_nella_conferma = [[(''codice'', VStr ''0002''), (''quantita'', VInt 1)]]\<rparr>"
  have h: "compare_orders (righe_doc ?ol) (righe_doc ?cl) default_tolerance = Inr ?rep"
    by (simp add: eval_defs float_of_int_small)
  from absent_code_excluded[OF h] obtain orig_lines conf_lines orig_dict conf_dict where
    io: "py_iter (get_righe (righe_doc ?ol)) = Inr orig_lines" and
    ic: "py_iter (get_righe (righe_doc ?cl)) = Inr conf_lines" and
    bo: "build_index orig_lines [] = Inr orig_dict" and
    bc: "build_index conf_lines [] = Inr conf_dict" and
    idx: "\<forall>(k, d) \<in> set orig_dict \<union> set conf_dict. dict_get d ''codice'' \<noteq> VNone" and
    sp: "\<forall>d s. VDict d \<in> set orig_lines \<and> dict_get d ''codice'' = VStr s \<and> list_all is_space s
               \<longrightarrow> (\<exists>d'. map_of orig_dict [] = Some d' \<and> latest_record orig_lines [] d')" and
    part: "\<forall>(k, d) \<in> set orig_dict.
               d \<in> set (righe_mancanti_nella_conferma ?rep) \<or> map_of conf_dict k \<noteq> None"
    by blast
  have ol: "orig_lines = ?ol"
    using io by (simp add: righe_doc_def get_righe_def py_or_def dict_get_default_def)
  have cl: "conf_lines = ?cl"
    using ic by (simp add: righe_doc_def get_righe_def py_or_def dict_get_default_def)
  have "VDict [(''codice'', VStr ''  ''), (''quantita'', VInt 5)] \<in> set orig_lines
        \<and> dict_get [(''codice'', VStr ''  ''), (''quantita'', VInt 5)] ''codice'' = VStr ''  ''
        \<and> list_all is_space ''  ''"
    by (simp add: ol dict_get_def is_space_def)
  with sp obtain d' where d': "map_of orig_dict [] = Some d'" "latest_record orig_lines [] d'"
    by blast
  from d'(1) have mem: "([], d') \<in> set orig_dict" by (rule map_of_SomeD)
  have "map_of conf_dict [] = None"
    using bc by (auto simp: cl dict_get_def code_key_def py_or_def py_strip_def is_space_def)
  with part mem have "d' \<in> set ?ms" by auto
  moreover from idx mem have "dict_get d' ''codice'' \<noteq> VNone" by auto
  ultimately show ?thesis using h bo d' unfolding ol by blast
qed

text \<open>
  C3, as the claim states it, fails: a \<open>codice\<close> that is a number other than zero has no
  method \<open>strip\<close>, and the comparison raises \<open>AttributeError\<close>; a quantity that is an
  \<open>int\<close> of 2 ^ 1024 or more does not convert to a float, and the comparison raises
  \<open>OverflowError\<close>.
\<close>

theorem non_string_code_raises:
  "compare_orders (righe_doc [VDict [(''codice'', VInt 5)]]) (righe_doc []) default_tolerance
   = Inl AttributeError
   \<and> compare_orders
       (righe_doc [VDict [(''codice'', VStr ''0001''), (''quantita'', VInt (2 ^ 1024))]])
       (righe_doc [VDict [(''codice'', VStr ''0001''), (''quantita'', VInt 1)]])
       default_tolerance
     = Inl OverflowError"
  by (simp add: eval_defs float_of_int_small float_of_int_overflow)

text \<open>
  C3, amended. \<open>compare_orders\<close> returns a report for every two documents whose
  \<open>righe\<close> are absent (which is the empty sequence) or a sequence of records in which
  every \<open>codice\<close> is a string or a value that counts as false, and no \<open>quantita\<close>,
  \<open>prezzo_unitario\<close> or \<open>totale_riga\<close> is an \<open>int\<close> beyond the range of a float;
  the other fields, and these in every other way, hold whatever values.
\<close>

theorem compare_orders_total:
  assumes "righe_ok original" "righe_ok confirmation"
  shows "\<exists>rep. compare_orders original confirmation tolerance = Inr rep"
proof -
  from righe_ok_lines[OF assms(1)] obtain ol where
    io: "py_iter (get_righe original) = Inr ol" and lo: "list_all line_ok ol" by blast
  from righe_ok_lines[OF assms(2)] obtain cl where
    ic: "py_iter (get_righe confirmation) = Inr cl" and lc: "list_all line_ok cl" by blast
  from build_index_ok[OF lo] obtain od where bo: "build_index ol [] = Inr od" by blast
  from build_index_ok[OF lc] obtain cd where bc: "build_index cl [] = Inr cd" by blast
  from compare_loop_ok[OF index_lines_ok[OF bo lo] index_lines_ok[OF bc lc]]
  obtain res where "compare_loop od cd tolerance [] [] = Inr res" by blast
  moreover obtain ds ms where "res = (ds, ms)" by (cases res)
  ultimately show ?thesis
    using io ic bo bc unfolding compare_orders_Inr doc_index_Inr by blast
qed

theorem compare_orders_total_witness:
  "righe_ok (righe_doc [VDict [(''codice'', VStr '' 0001''), (''quantita'', VStr ''abc''),
                               (''prezzo_unitario'', VList []), (''totale_riga'', VInt 7)],
                        VDict [(''codice'', VInt 0)],
                        VDict [(''descrizione'', VStr ''x'')]])
   \<and> righe_ok []
   \<and> (\<exists>rep. compare_orders
          (righe_doc [VDict [(''codice'', VStr '' 0001''), (''quantita'', VStr ''abc''),
                             (''prezzo_unitario'', VList []), (''totale_riga'', VInt 7)],
                      VDict [(''codice'', VInt 0)],
                      VDict [(''descrizione'', VStr ''x'')]])
          [] default_tolerance = Inr rep)"
proof -
  have 1: "righe_ok (righe_doc [VDict [(''codice'', VStr '' 0001''), (''quantita'', VStr ''abc''),
                               (''prezzo_unitario'', VList []), (''totale_riga'', VInt 7)],
                        VDict [(''codice'', VInt 0)],
                        VDict [(''descrizione'', VStr ''x'')]])"
    by (simp add: righe_ok_def righe_doc_def get_righe_def py_or_def dict_get_default_def
        dict_get_def codice_ok_def number_ok_def float_of_int_small Let_def)
  have 2: "righe_ok []"
    by (simp add: righe_ok_def get_righe_def py_or_def dict_get_default_def)
  from compare_orders_total[OF 1 2, of default_tolerance] 1 2 show ?thesis by blast
qed

text \<open>
  C4. The unit-of-measure heuristic on the example: the original has code \<open>0001\<close> with
  quantity 10 and total 100.0, the confirmation has quantity 1 and total 98.0, the
  tolerance is the default 0.05. The report has one discrepancy record, for \<open>0001\<close>, with
  the quantity pair (10, 1), the pair of totals and the note, because the relative
  difference of the totals, the float 0.02, is below the tolerance.
\<close>

theorem unit_mismatch_example:
  "compare_orders
     (righe_doc [VDict [(''codice'', VStr ''0001''), (''quantita'', VInt 10),
                        (''totale_riga'', VFloat (Fin 100))]])
     (righe_doc [VDict [(''codice'', VStr ''0001''), (''quantita'', VInt 1),
                        (''totale_riga'', VFloat (Fin 98))]])
     default_tolerance
   = Inr \<lparr>differenze =
             [[(''codice'', VStr ''0001''),
               (''quantita'', VTuple [VFloat (Fin 10), VFloat (Fin 1)]),
               (''totale_riga'', VTuple [VFloat (Fin 100), VFloat (Fin 98)]),
               (''nota'', VList [VStr nota_text])]],
           righe_mancanti_nella_conferma = [],
           righe_extra_nella_conferma = []\<rparr>
   \<and> fdiv (fabs (fsub (Fin 100) (Fin 98))) (Fin 100) = Inr (round64 False (2 / 100))
   \<and> flt (round64 False (2 / 100)) default_tolerance"
  by (simp add: eval_defs float_of_int_small round64_numeral round64_0_02
      default_tolerance_value)

text \<open>
  C5, as the claim states it, fails: a document with one line, of code \<open>0001\<close>, whose
  quantity is the string \<open>nan\<close> differs from itself, since the quantity parses to NaN
  and NaN is unequal to itself.
\<close>

theorem nan_differs_from_itself:
  "compare_orders
     (righe_doc [VDict [(''codice'', VStr ''0001''), (''quantita'', VStr ''nan'')]])
     (righe_doc [VDict [(''codice'', VStr ''0001''), (''quantita'', VStr ''nan'')]])
     default_tolerance
   = Inr \<lparr>differenze =
             [[(''codice'', VStr ''0001''), (''quantita'', VTuple [VFloat NaN, VFloat NaN])]],
           righe_mancanti_nella_conferma = [],
           righe_extra_nella_conferma = []\<rparr>"
  by (simp add: eval_defs float_parse_defs)

text \<open>
  C5, amended. For every document whose \<open>righe\<close> are absent or a sequence of records in
  which every \<open>codice\<close> is a string or a value that counts as false and every
  \<open>quantita\<close>, \<open>prezzo_unitario\<close> and \<open>totale_riga\<close> parses to nothing or to a number
  other than NaN, and for every tolerance, comparing the document with itself returns a
  report whose three lists are empty. The codes need not be distinct.
\<close>

theorem compare_with_itself:
  assumes "righe_plain a"
  shows "compare_orders a a tolerance =
         Inr \<lparr>differenze = [], righe_mancanti_nella_conferma = [],
              righe_extra_nella_conferma = []\<rparr>"
proof -
  from righe_plain_lines[OF assms] obtain lines where
    i: "py_iter (get_righe a) = Inr lines" and p: "list_all line_plain lines" by blast
  from p have "list_all line_ok lines" by (simp add: list_all_iff line_plain_ok)
  from build_index_ok[OF this] obtain idx where b: "build_index lines [] = Inr idx" by blast
  have di: "doc_index a = Inr idx" using i b by (simp add: doc_index_def)
  have m: "map_of idx k = Some d" if "(k, d) \<in> set idx" for k d
    using that in_index_map_of[OF b] by simp
  with index_lines_ok[OF b p]
  have "\<forall>(k, d) \<in> set idx. map_of idx k = Some d \<and> line_plain (VDict d)" by auto
  then have l: "compare_loop idx idx tolerance [] [] = Inr ([], [])"
    by (rule compare_loop_same)
  have e: "extra_lines idx idx = []"
    using m by (auto simp: extra_lines_def filter_empty_conv)
  show ?thesis by (simp add: compare_orders_def di l e)
qed

theorem compare_with_itself_witness:
  "righe_plain (righe_doc [VDict [(''codice'', VStr ''0001''), (''quantita'', VInt 5),
                                  (''prezzo_unitario'', VFloat (Fin 2)),
                                  (''totale_riga'', VStr ''10,0'')],
                           VDict [(''codice'', VStr ''0002''), (''quantita'', VInt 3)]])
   \<and> compare_orders
       (righe_doc [VDict [(''codice'', VStr ''0001''), (''quantita'', VInt 5),
                          (''prezzo_unitario'', VFloat (Fin 2)),
                          (''totale_riga'', VStr ''10,0'')],
                   VDict [(''codice'', VStr ''0002''), (''quantita'', VInt 3)]])
       (righe_doc [VDict [(''codice'', VStr ''0001''), (''quantita'', VInt 5),
                          (''prezzo_unitario'', VFloat (Fin 2)),
                          (''totale_riga'', VStr ''10,0'')],
                   VDict [(''codice'', VStr ''0002''), (''quantita'', VInt 3)]])
       default_tolerance
     = Inr \<lparr>differenze = [], righe_mancanti_nella_conferma = [],
             righe_extra_nella_conferma = []\<rparr>"
proof -
  have 1: "righe_plain (righe_doc [VDict [(''codice'', VStr ''0001''), (''quantita'', VInt 5),
                                  (''prezzo_unitario'', VFloat (Fin 2)),
                                  (''totale_riga'', VStr ''10,0'')],
                           VDict [(''codice'', VStr ''0002''), (''quantita'', VInt 3)]])"
    by (simp add: righe_plain_def righe_doc_def get_righe_def py_or_def dict_get_default_def
        dict_get_def codice_ok_def number_plain_def float_of_int_small is_nan_def
        float_parse_defs round64_numeral)
  from compare_with_itself[OF 1, of default_tolerance] 1 show ?thesis by (rule conjI[rotated])
qed

text \<open>
  C6. Last write wins. Whenever \<open>compare_orders\<close> returns a report, the index of each
  side has one entry for each key, and its entries are the latest records: \<open>d\<close> is the
  value under \<open>k\<close> exactly when \<open>d\<close> stands in the side's sequence with the trimmed code
  \<open>k\<close> and no record after it has that code. So of two records that share a code the
  earlier one is not in the index. Every missing line and every extra line is such a latest
  record of its side, and every discrepancy record compares the latest records of the two
  sides for one code.
\<close>

theorem last_write_wins:
  assumes "compare_orders original confirmation tolerance = Inr rep"
  shows "\<exists>orig_lines conf_lines orig_dict conf_dict.
           py_iter (get_righe original) = Inr orig_lines
         \<and> py_iter (get_righe confirmation) = Inr conf_lines
         \<and> build_index orig_lines [] = Inr orig_dict
         \<and> build_index conf_lines [] = Inr conf_dict
         \<and> distinct (map fst orig_dict) \<and> distinct (map fst conf_dict)
         \<and> (\<forall>k d. (k, d) \<in> set orig_dict \<longleftrightarrow> latest_record orig_lines k d)
         \<and> (\<forall>k d. (k, d) \<in> set conf_dict \<longleftrightarrow> latest_record conf_lines k d)
         \<and> (\<forall>d \<in> set (righe_mancanti_nella_conferma rep). \<exists>k. latest_record orig_lines k d)
         \<and> (\<forall>d \<in> set (righe_extra_nella_conferma rep). \<exists>k. latest_record conf_lines k d)
         \<and> (\<forall>r \<in> set (differenze rep). \<exists>k o_line c_line.
               latest_record orig_lines k o_line \<and> latest_record conf_lines k c_line
             \<and> compare_lines k o_line c_line tolerance = Inr r)"
proof -
  from assms obtain od cd ds ms where
    od: "doc_index original = Inr od" and cd: "doc_index confirmation = Inr cd" and
    l: "compare_loop od cd tolerance [] [] = Inr (ds, ms)" and
    rep: "rep = \<lparr>differenze = ds, righe_mancanti_nella_conferma = ms,
                righe_extra_nella_conferma = extra_lines od cd\<rparr>"
    unfolding compare_orders_Inr by blast
  from od obtain ol where io: "py_iter (get_righe original) = Inr ol"
    and bo: "build_index ol [] = Inr od" unfolding doc_index_Inr by blast
  from cd obtain cl where ic: "py_iter (get_righe confirmation) = Inr cl"
    and bc: "build_index cl [] = Inr cd" unfolding doc_index_Inr by blast
  note lo = build_index_latest[OF bo] and lc = build_index_latest[OF bc]
  have d: "distinct (map fst od)" "distinct (map fst cd)"
    using build_index_distinct[OF bo] build_index_distinct[OF bc] by simp_all
  have 1: "\<forall>d \<in> set ms. \<exists>k. latest_record ol k d"
    using in_missing[OF l] lo by blast
  have 2: "\<forall>d \<in> set (extra_lines od cd). \<exists>k. latest_record cl k d"
    using in_extra lc by blast
  have 3: "\<forall>r \<in> set ds. \<exists>k o_line c_line.
               latest_record ol k o_line \<and> latest_record cl k c_line
             \<and> compare_lines k o_line c_line tolerance = Inr r"
  proof
    fix r assume "r \<in> set ds"
    from in_differences[OF l this] obtain k o_line c_line where
      h: "(k, o_line) \<in> set od" "map_of cd k = Some c_line"
         "compare_lines k o_line c_line tolerance = Inr r" by blast
    from h(2) have "(k, c_line) \<in> set cd" by (rule map_of_SomeD)
    with h(1,3) lo lc show "\<exists>k o_line c_line.
               latest_record ol k o_line \<and> latest_record cl k c_line
             \<and> compare_lines k o_line c_line tolerance = Inr r" by blast
  qed
  show ?thesis
    using io ic bo bc d lo lc 1 2 3 by (simp add: rep)
qed

theorem last_write_wins_witness:
  "compare_orders
     (righe_doc [VDict [(''codice'', VStr ''0001''), (''quantita'', VInt 1)],
                 VDict [(''codice'', VStr ''0002''), (''quantita'', VInt 7)],
                 VDict [(''codice'', VStr '' 0001 ''), (''quantita'', VInt 2)]])
     (righe_doc [VDict [(''codice'', VStr ''0002''), (''quantita'', VInt 8)],
                 VDict [(''codice'', VStr ''0002''), (''quantita'', VInt 7)],
                 VDict [(''codice'', VStr ''0003''), (''quantita'', VInt 1)],
                 VDict [(''codice'', VStr ''0003''), (''quantita'', VInt 2)]])
     default_tolerance
   = Inr \<lparr>differenze = [],
           righe_mancanti_nella_conferma = [[(''codice'', VStr '' 0001 ''), (''quantita'', VInt 2)]],
           righe_extra_nella_conferma = [[(''codice'', VStr ''0003''), (''quantita'', VInt 2)]]\<rparr>
   \<and> (\<exists>orig_lines conf_lines orig_dict conf_dict.
           py_iter (get_righe (righe_doc [VDict [(''codice'', VStr ''0001''), (''quantita'', VInt 1)],
                 VDict [(''codice'', VStr ''0002''), (''quantita'', VInt 7)],
                 VDict [(''codice'', VStr '' 0001 ''), (''quantita'', VInt 2)]])) = Inr orig_lines
         \<and> py_iter (get_righe (righe_doc [VDict [(''codice'', VStr ''0002''), (''quantita'', VInt 8)],
                 VDict [(''codice'', VStr ''0002''), (''quantita'', VInt 7)],
                 VDict [(''codice'', VStr ''0003''), (''quantita'', VInt 1)],
                 VDict [(''codice'', VStr ''0003''), (''quantita'', VInt 2)]])) = Inr conf_lines
         \<and> build_index orig_lines [] = Inr orig_dict
         \<and> build_index conf_lines [] = Inr conf_dict
         \<and> distinct (map fst orig_dict) \<and> distinct (map fst conf_dict)
         \<and> (\<forall>k d. (k, d) \<in> set orig_dict \<longleftrightarrow> latest_record orig_lines k d)
         \<and> (\<forall>k d. (k, d) \<in> set conf_dict \<longleftrightarrow> latest_record conf_lines k d)
         \<and> (\<forall>d \<in> set (righe_mancanti_nella_conferma (\<lparr>differenze = [],
           righe_mancanti_nella_conferma = [[(''codice'', VStr '' 0001 ''), (''quantita'', VInt 2)]],
           righe_extra_nella_conferma = [[(''codice'', VStr ''0003''), (''quantita'', VInt 2)]]\<rparr>)). \<exists>k. latest_record orig_lines k d)
         \<and> (\<forall>d \<in> set (righe_extra_nella_conferma (\<lparr>differenze = [],
           righe_mancanti_nella_conferma = [[(''codice'', VStr '' 0001 ''), (''quantita'', VInt 2)]],
           righe_extra_nella_conferma = [[(''codice'', VStr ''0003''), (''quantita'', VInt 2)]]\<rparr>)). \<exists>k. latest_record conf_lines k d)
         \<and> (\<forall>r \<in> set (differenze (\<lparr>differenze = [],
           righe_mancanti_nella_conferma = [[(''codice'', VStr '' 0001 ''), (''quantita'', VInt 2)]],
           righe_extra_nella_conferma = [[(''codice'', VStr ''0003''), (''quantita'', VInt 2)]]\<rparr>)). \<exists>k o_line c_line.
               latest_record orig_lines k o_line \<and> latest_record conf_lines k c_line
             \<and> compare_lines k o_line c_line default_tolerance = Inr r))"
proof -
  have h: "compare_orders
     (righe_doc [VDict [(''codice'', VStr ''0001''), (''quantita'', VInt 1)],
                 VDict [(''codice'', VStr ''0002''), (''quantita'', VInt 7)],
                 VDict [(''codice'', VStr '' 0001 ''), (''quantita'', VInt 2)]])
     (righe_doc [VDict [(''codice'', VStr ''0002''), (''quantita'', VInt 8)],
                 VDict [(''codice'', VStr ''0002''), (''quantita'', VInt 7)],
                 VDict [(''codice'', VStr ''0003''), (''quantita'', VInt 1)],
                 VDict [(''codice'', VStr ''0003''), (''quantita'', VInt 2)]])
     default_tolerance
   = Inr \<lparr>differenze = [],
           righe_mancanti_nella_conferma = [[(''codice'', VStr '' 0001 ''), (''quantita'', VInt 2)]],
           righe_extra_nella_conferma = [[(''codice'', VStr ''0003''), (''quantita'', VInt 2)]]\<rparr>"
    by (simp add: eval_defs float_of_int_small)
  show ?thesis by (rule conjI[OF h last_write_wins[OF h]])
qed

text \<open>
  C7. The numeric parser of both modules takes \<open>.\<close> for the thousands separator and
  \<open>,\<close> for the decimal separator: it deletes every \<open>.\<close>, turns every \<open>,\<close> into \<open>.\<close>
  and converts the result with \<open>float\<close>. The token \<open>1.234,56\<close> parses to the float
  1234.56, the binary64 number nearest to 1234.56 that the text \<open>1234.56\<close> denotes, which
  is 2714826150374277 / 2 ^ 41; the token \<open>12,5\<close> parses to 12.5.
\<close>

theorem numeric_normalization_tokens:
  "parse_number_token ''1.234,56'' = Some (Fin (2714826150374277 / 2199023255552))
   \<and> parse_number (VStr ''1.234,56'') = Inr (Some (Fin (2714826150374277 / 2199023255552)))
   \<and> float_of_str ''1234.56'' = Some (Fin (2714826150374277 / 2199023255552))
   \<and> \<bar>2714826150374277 / 2199023255552 - 123456 / 100\<bar> < pow2 (- 43)
   \<and> parse_number_token ''12,5'' = Some (Fin (25 / 2))
   \<and> parse_number (VStr ''12,5'') = Inr (Some (Fin (25 / 2)))
   \<and> float_of_str ''12.5'' = Some (Fin (25 / 2))"
  by (simp add: parse_number_token_def float_parse_defs round64_1234_56 round64_12_5)

text \<open>
  C8. Symmetry of absence. Whenever \<open>compare_orders\<close> returns a report, the code of
  every missing line is absent from the confirmation's index, the code of every extra line
  is absent from the original's index, and the sets of codes of the missing lines, of the
  extra lines and of the discrepancy records are pairwise disjoint.
\<close>

theorem symmetry_of_absence:
  assumes "compare_orders original confirmation tolerance = Inr rep"
  shows "\<exists>orig_dict conf_dict.
           doc_index original = Inr orig_dict \<and> doc_index confirmation = Inr conf_dict
         \<and> (\<forall>d \<in> set (righe_mancanti_nella_conferma rep).
               \<exists>k. line_key (VDict d) = Some k \<and> map_of conf_dict k = None)
         \<and> (\<forall>d \<in> set (righe_extra_nella_conferma rep).
               \<exists>k. line_key (VDict d) = Some k \<and> map_of orig_dict k = None)
         \<and> item_codes (righe_mancanti_nella_conferma rep)
             \<inter> item_codes (righe_extra_nella_conferma rep) = {}
         \<and> item_codes (righe_mancanti_nella_conferma rep) \<inter> record_codes (differenze rep) = {}
         \<and> item_codes (righe_extra_nella_conferma rep) \<inter> record_codes (differenze rep) = {}"
proof -
  from assms obtain od cd ds ms where
    od: "doc_index original = Inr od" and cd: "doc_index confirmation = Inr cd" and
    l: "compare_loop od cd tolerance [] [] = Inr (ds, ms)" and
    rep: "rep = \<lparr>differenze = ds, righe_mancanti_nella_conferma = ms,
                righe_extra_nella_conferma = extra_lines od cd\<rparr>"
    unfolding compare_orders_Inr by blast
  from od obtain ol where bo: "build_index ol [] = Inr od" unfolding doc_index_Inr by blast
  from cd obtain cl where bc: "build_index cl [] = Inr cd" unfolding doc_index_Inr by blast
  have key_o: "line_key (VDict d) = Some k \<and> map_of od k = Some d" if "(k, d) \<in> set od" for k d
    using that build_index_latest[OF bo, of k d] latest_record_line[of ol k d]
      in_index_map_of[OF bo, of k d] by simp
  have key_c: "line_key (VDict d) = Some k \<and> map_of cd k = Some d" if "(k, d) \<in> set cd" for k d
    using that build_index_latest[OF bc, of k d] latest_record_line[of cl k d]
      in_index_map_of[OF bc, of k d] by simp
  have m: "\<exists>k. line_key (VDict d) = Some k \<and> map_of cd k = None \<and> map_of od k \<noteq> None"
    if "d \<in> set ms" for d
    using in_missing[OF l that] key_o by fastforce
  have e: "\<exists>k. line_key (VDict d) = Some k \<and> map_of od k = None \<and> map_of cd k \<noteq> None"
    if "d \<in> set (extra_lines od cd)" for d
    using in_extra[OF that] key_c by fastforce
  have r: "\<exists>k. map_of r ''codice'' = Some (VStr k) \<and> map_of od k \<noteq> None \<and> map_of cd k \<noteq> None"
    if "r \<in> set ds" for r
  proof -
    from in_differences[OF l that] obtain k o_line c_line where
      h: "(k, o_line) \<in> set od" "map_of cd k = Some c_line"
         "compare_lines k o_line c_line tolerance = Inr r" by blast
    from key_o[OF h(1)] h(2) compare_lines_codice[OF h(3)] show ?thesis by auto
  qed
  have mc: "item_codes ms \<subseteq> {k. map_of cd k = None \<and> map_of od k \<noteq> None}"
    using m by (fastforce simp: item_codes_def)
  have ec: "item_codes (extra_lines od cd) \<subseteq> {k. map_of od k = None \<and> map_of cd k \<noteq> None}"
    using e by (fastforce simp: item_codes_def)
  have rc: "record_codes ds \<subseteq> {k. map_of od k \<noteq> None \<and> map_of cd k \<noteq> None}"
    using r by (fastforce simp: record_codes_def)
  have 1: "\<forall>d \<in> set ms. \<exists>k. line_key (VDict d) = Some k \<and> map_of cd k = None"
    using m by blast
  have 2: "\<forall>d \<in> set (extra_lines od cd). \<exists>k. line_key (VDict d) = Some k \<and> map_of od k = None"
    using e by blast
  have 3: "item_codes ms \<inter> item_codes (extra_lines od cd) = {}" using mc ec by blast
  have 4: "item_codes ms \<inter> record_codes ds = {}" using mc rc by blast
  have 5: "item_codes (extra_lines od cd) \<inter> record_codes ds = {}" using ec rc by blast
  show ?thesis
    using od cd 1 2 3 4 5 by (simp add: rep)
qed

theorem symmetry_of_absence_witness:
  "compare_orders
     (righe_doc [VDict [(''codice'', VStr ''0001''), (''quantita'', VInt 5)],
                 VDict [(''codice'', VStr ''0002''), (''quantita'', VInt 3)]])
     (righe_doc [VDict [(''codice'', VStr ''0001''), (''quantita'', VInt 6)],
                 VDict [(''codice'', VStr ''0003''), (''quantita'', VInt 1)]])
     default_tolerance
   = Inr \<lparr>differenze =
             [[(''codice'', VStr ''0001''), (''quantita'', VTuple [VFloat (Fin 5), VFloat (Fin 6)])]],
           righe_mancanti_nella_conferma = [[(''codice'', VStr ''0002''), (''quantita'', VInt 3)]],
           righe_extra_nella_conferma = [[(''codice'', VStr ''0003''), (''quantita'', VInt 1)]]\<rparr>
   \<and> (\<exists>orig_dict conf_dict.
           doc_index (righe_doc [VDict [(''codice'', VStr ''0001''), (''quantita'', VInt 5)],
                 VDict [(''codice'', VStr ''0002''), (''quantita'', VInt 3)]]) = Inr orig_dict \<and> doc_index (righe_doc [VDict [(''codice'', VStr ''0001''), (''quantita'', VInt 6)],
                 VDict [(''codice'', VStr ''0003''), (''quantita'', VInt 1)]]) = Inr conf_dict
         \<and> (\<forall>d \<in> set (righe_mancanti_nella_conferma (\<lparr>differenze =
             [[(''codice'', VStr ''0001''), (''quantita'', VTuple [VFloat (Fin 5), VFloat (Fin 6)])]],
           righe_mancanti_nella_conferma = [[(''codice'', VStr ''0002''), (''quantita'', VInt 3)]],
           righe_extra_nella_conferma = [[(''codice'', VStr ''0003''), (''quantita'', VInt 1)]]\<rparr>)).
               \<exists>k. line_key (VDict d) = Some k \<and> map_of conf_dict k = None)
         \<and> (\<forall>d \<in> set (righe_extra_nella_conferma (\<lparr>differenze =
             [[(''codice'', VStr ''0001''), (''quantita'', VTuple [VFloat (Fin 5), VFloat (Fin 6)])]],
           righe_mancanti_nella_conferma = [[(''codice'', VStr ''0002''), (''quantita'', VInt 3)]],
           righe_extra_nella_conferma = [[(''codice'', VStr ''0003''), (''quantita'', VInt 1)]]\<rparr>)).
               \<exists>k. line_key (VDict d) = Some k \<and> map_of orig_dict k = None)
         \<and> item_codes (righe_mancanti_nella_conferma (\<lparr>differenze =
             [[(''codice'', VStr ''0001''), (''quantita'', VTuple [VFloat (Fin 5), VFloat (Fin 6)])]],
           righe_mancanti_nella_conferma = [[(''codice'', VStr ''0002''), (''quantita'', VInt 3)]],
           righe_extra_nella_conferma = [[(''codice'', VStr ''0003''), (''quantita'', VInt 1)]]\<rparr>))
             \<inter> item_codes (righe_extra_nella_conferma (\<lparr>differenze =
             [[(''codice'', VStr ''0001''), (''quantita'', VTuple [VFloat (Fin 5), VFloat (Fin 6)])]],
           righe_mancanti_nella_conferma = [[(''codice'', VStr ''0002''), (''quantita'', VInt 3)]],
           righe_extra_nella_conferma = [[(''codice'', VStr ''0003''), (''quantita'', VInt 1)]]\<rparr>)) = {}
         \<and> item_codes (righe_mancanti_nella_conferma (\<lparr>differenze =
             [[(''codice'', VStr ''0001''), (''quantita'', VTuple [VFloat (Fin 5), VFloat (Fin 6)])]],
           righe_mancanti_nella_conferma = [[(''codice'', VStr ''0002''), (''quantita'', VInt 3)]],
           righe_extra_nella_conferma = [[(''codice'', VStr ''0003''), (''quantita'', VInt 1)]]\<rparr>)) \<inter> record_codes (differenze (\<lparr>differenze =
             [[(''codice'', VStr ''0001''), (''quantita'', VTuple [VFloat (Fin 5), VFloat (Fin 6)])]],
           righe_mancanti_nella_conferma = [[(''codice'', VStr ''0002''), (''quantita'', VInt 3)]],
           righe_extra_nella_conferma = [[(''codice'', VStr ''0003''), (''quantita'', VInt 1)]]\<rparr>)) = {}
         \<and> item_codes (righe_extra_nella_conferma (\<lparr>differenze =
             [[(''codice'', VStr ''0001''), (''quantita'', VTuple [VFloat (Fin 5), VFloat (Fin 6)])]],
           righe_mancanti_nella_conferma = [[(''codice'', VStr ''0002''), (''quantita'', VInt 3)]],
           righe_extra_nella_conferma = [[(''codice'', VStr ''0003''), (''quantita'', VInt 1)]]\<rparr>)) \<inter> record_codes (differenze (\<lparr>differenze =
             [[(''codice'', VStr ''0001''), (''quantita'', VTuple [VFloat (Fin 5), VFloat (Fin 6)])]],
           righe_mancanti_nella_conferma = [[(''codice'', VStr ''0002''), (''quantita'', VInt 3)]],
           righe_extra_nella_conferma = [[(''codice'', VStr ''0003''), (''quantita'', VInt 1)]]\<rparr>)) = {})"
proof -
  have h: "compare_orders
     (righe_doc [VDict [(''codice'', VStr ''0001''), (''quantita'', VInt 5)],
                 VDict [(''codice'', VStr ''0002''), (''quantita'', VInt 3)]])
     (righe_doc [VDict [(''codice'', VStr ''0001''), (''quantita'', VInt 6)],
                 VDict [(''codice'', VStr ''0003''), (''quantita'', VInt 1)]])
     default_tolerance
   = Inr \<lparr>differenze =
             [[(''codice'', VStr ''0001''), (''quantita'', VTuple [VFloat (Fin 5), VFloat (Fin 6)])]],
           righe_mancanti_nella_conferma = [[(''codice'', VStr ''0002''), (''quantita'', VInt 3)]],
           righe_extra_nella_conferma = [[(''codice'', VStr ''0003''), (''quantita'', VInt 1)]]\<rparr>"
    by (simp add: eval_defs float_of_int_small)
  show ?thesis by (rule conjI[OF h symmetry_of_absence[OF h]])
qed

text \<open>
  C9. Whenever \<open>compare_orders\<close> returns a report, a discrepancy record that has a
  \<open>nota\<close> entry also has a \<open>quantita\<close> entry, the pair of two quantities that differ.
\<close>

theorem note_needs_quantity_pair:
  assumes "compare_orders original confirmation tolerance = Inr rep"
  shows "\<forall>r \<in> set (differenze rep). map_of r ''nota'' \<noteq> None \<longrightarrow>
           (\<exists>x y. map_of r ''quantita'' = Some (VTuple [VFloat x, VFloat y]) \<and> fne x y)"
proof (intro ballI impI)
  fix r assume r: "r \<in> set (differenze rep)" and n: "map_of r ''nota'' \<noteq> None"
  from assms obtain od cd ds ms where
    l: "compare_loop od cd tolerance [] [] = Inr (ds, ms)" and rep: "differenze rep = ds"
    unfolding compare_orders_Inr by auto
  from compare_loop_differences[OF l, of r] r rep obtain k o_line c_line where
    "compare_lines k o_line c_line tolerance = Inr r" by auto
  from compare_lines_nota[OF this n]
  show "\<exists>x y. map_of r ''quantita'' = Some (VTuple [VFloat x, VFloat y]) \<and> fne x y" .
qed

theorem note_needs_quantity_pair_witness:
  "\<exists>rep r. compare_orders
        (righe_doc [VDict [(''codice'', VStr ''0001''), (''quantita'', VInt 10),
                           (''totale_riga'', VFloat (Fin 100))]])
        (righe_doc [VDict [(''codice'', VStr ''0001''), (''quantita'', VInt 1),
                           (''totale_riga'', VFloat (Fin 98))]])
        default_tolerance = Inr rep
     \<and> differenze rep = [r]
     \<and> map_of r ''nota'' = Some (VList [VStr nota_text])
     \<and> (\<exists>x y. map_of r ''quantita'' = Some (VTuple [VFloat x, VFloat y]) \<and> fne x y)"
proof -
  let ?r = "[(''codice'', VStr ''0001''),
             (''quantita'', VTuple [VFloat (Fin 10), VFloat (Fin 1)]),
             (''totale_riga'', VTuple [VFloat (Fin 100), VFloat (Fin 98)]),
             (''nota'', VList [VStr nota_text])]"
  let ?rep = "\<lparr>differenze = [?r], righe_mancanti_nella_conferma = [],
               righe_extra_nella_conferma = []\<rparr>"
  have h: "compare_orders
        (righe_doc [VDict [(''codice'', VStr ''0001''), (''quantita'', VInt 10),
                           (''totale_riga'', VFloat (Fin 100))]])
        (righe_doc [VDict [(''codice'', VStr ''0001''), (''quantita'', VInt 1),
                           (''totale_riga'', VFloat (Fin 98))]])
        default_tolerance = Inr ?rep"
    by (simp add: eval_defs float_of_int_small round64_numeral round64_0_02 default_tolerance_value)
  have n: "map_of ?r ''nota'' = Some (VList [VStr nota_text])" by simp
  from note_needs_quantity_pair[OF h] n
  have q: "\<exists>x y. map_of ?r ''quantita'' = Some (VTuple [VFloat x, VFloat y]) \<and> fne x y"
    by simp
  have d: "differenze ?rep = [?r]" by simp
  from h d n q show ?thesis by blast
qed

text \<open>
  C10. Every record that \<open>parse_items\<close> returns has the three numeric fields
  \<open>quantita\<close>, \<open>prezzo_unitario\<close> and \<open>importo\<close>, each holding a float: a row with a
  numeric token that does not parse is dropped whole.
\<close>

theorem extracted_rows_have_numbers:
  "\<forall>item \<in> set (parse_items raw_text). has_numbers item"
  using scan_lines_numbers[of "[]" False "split_on (CHR 0x0A) raw_text"]
  by (simp add: parse_items_def list_all_iff)

theorem extracted_rows_have_numbers_witness:
  "\<exists>item.
     parse_items (''Ordine n. 357'' @ [CHR 0x0A]
                  @ ''Codice  Codice Fornitore  Descrizione  UM  Qta  Prezzo'' @ [CHR 0x0A]
                  @ ''0001 AB12 Vite lunga PZ 10,00 2,00 0 20,00 22'' @ [CHR 0x0A]
                  @ ''0002 CD34 Dado PZ 1,00 x 0 3,00 22'' @ [CHR 0x0A]
                  @ ''Totale Merce 20,00'') = [item]
     \<and> has_numbers item"
proof -
  let ?t = "''Ordine n. 357'' @ [CHR 0x0A]
                  @ ''Codice  Codice Fornitore  Descrizione  UM  Qta  Prezzo'' @ [CHR 0x0A]
                  @ ''0001 AB12 Vite lunga PZ 10,00 2,00 0 20,00 22'' @ [CHR 0x0A]
                  @ ''0002 CD34 Dado PZ 1,00 x 0 3,00 22'' @ [CHR 0x0A]
                  @ ''Totale Merce 20,00''"
  let ?item = "[(''codice'', VStr ''0001''), (''codice_fornitore'', VStr ''AB12''),
                (''descrizione'', VStr ''Vite lunga''), (''unita_misura'', VStr ''PZ''),
                (''quantita'', VFloat (Fin 10)), (''prezzo_unitario'', VFloat (Fin 2)),
                (''importo'', VFloat (Fin 20))]"
  have e: "parse_items ?t = [?item]"
    by (simp add: extract_defs float_parse_defs round64_numeral)
  from extracted_rows_have_numbers[of ?t] e have "has_numbers ?item" by simp
  with e show ?thesis by blast
qed

end
